theory Spec2Isabelle
  imports Complex_Main "HOL-Library.Sublist" "HOL-Library.Multiset"
begin

section \<open>Python values and the built-ins the program calls\<close>

text \<open>
  The values the program handles come out of \<^verbatim>\<open>response.json()\<close>: the Python image of a
  JSON document. A dict is an association list read with \<open>map_of\<close> (it stands for the dict
  after the JSON decoder has resolved duplicate keys). A JSON number is an \<open>int\<close>, a finite
  float (every finite double is a rational) or one of the non-finite floats that Python's
  decoder accepts. Strings are byte lists (UTF-8); the three separators of the program are
  ASCII, so splitting bytes and splitting code points cut at the same places.
\<close>

datatype json =
    JNull
  | JBool bool
  | JInt int
  | JFloat rat
  | JNonFinite
  | JStr string
  | JArr "json list"
  | JObj "(string \<times> json) list"

datatype error = AttributeError | TypeError | IndexError

text \<open>
  \<^verbatim>\<open>s.split(sep)\<close> for a non-empty separator: the string is scanned from the left, every
  occurrence of \<open>sep\<close> found ends the current part and the scan resumes after it. Python
  raises ValueError for an empty separator; the program only ever passes the literals
  \<^verbatim>\<open>"$$$"\<close>, \<^verbatim>\<open>'#'\<close> and \<^verbatim>\<open>'$'\<close>, and for an empty \<open>sep\<close> the function below never cuts.
\<close>

function py_split :: "string \<Rightarrow> string \<Rightarrow> string list" where
  "py_split sep s =
     (if s = [] then [[]]
      else if sep \<noteq> [] \<and> prefix sep s then [] # py_split sep (drop (length sep) s)
      else (case py_split sep (tl s) of
              [] \<Rightarrow> [[hd s]]
            | w # ws \<Rightarrow> (hd s # w) # ws))"
  by pat_completeness auto
termination
  by (relation "measure (\<lambda>(sep, s). length s)") auto

text \<open>\<^verbatim>\<open>d.get(k, default)\<close> on a dict.\<close>

definition dict_get :: "(string \<times> json) list \<Rightarrow> string \<Rightarrow> json \<Rightarrow> json" where
  "dict_get d k dflt = (case map_of d k of None \<Rightarrow> dflt | Some v \<Rightarrow> v)"

text \<open>Truth value of a Python object, as \<^verbatim>\<open>if x:\<close> and \<^verbatim>\<open>and\<close> read it.\<close>

fun truthy :: "json \<Rightarrow> bool" where
  "truthy JNull = False"
| "truthy (JBool b) = b"
| "truthy (JInt n) = (n \<noteq> 0)"
| "truthy (JFloat r) = (r \<noteq> 0)"
| "truthy JNonFinite = True"
| "truthy (JStr s) = (s \<noteq> [])"
| "truthy (JArr xs) = (xs \<noteq> [])"
| "truthy (JObj d) = (d \<noteq> [])"

text \<open>\<^verbatim>\<open>x == 1\<close>: Python compares numbers by value, and \<^verbatim>\<open>True == 1\<close>.\<close>

fun py_eq_1 :: "json \<Rightarrow> bool" where
  "py_eq_1 (JBool b) = b"
| "py_eq_1 (JInt n) = (n = 1)"
| "py_eq_1 (JFloat r) = (r = 1)"
| "py_eq_1 _ = False"

text \<open>
  \<^verbatim>\<open>for item in x\<close>: a list yields its elements, a dict its keys, a string its characters;
  nothing else that JSON decodes to is iterable.
\<close>

fun py_iter :: "json \<Rightarrow> error + json list" where
  "py_iter (JArr xs) = Inr xs"
| "py_iter (JObj d) = Inr (map (\<lambda>kv. JStr (fst kv)) d)"
| "py_iter (JStr s) = Inr (map (\<lambda>c. JStr [c]) s)"
| "py_iter _ = Inl TypeError"

section \<open>The response parser: \<^verbatim>\<open>parse_cms_data\<close>\<close>

record episode =
  video_name :: string
  video_url :: string

text \<open>The default of \<^verbatim>\<open>vod_name\<close>, a four-character Chinese literal, as its UTF-8 bytes.\<close>

definition unknown_name :: string where
  "unknown_name =
     [CHR 0xE6, CHR 0x9C, CHR 0xAA, CHR 0xE7, CHR 0x9F, CHR 0xA5,
      CHR 0xE5, CHR 0x90, CHR 0x8D, CHR 0xE7, CHR 0xA7, CHR 0xB0]"

text \<open>The inner loop, lines 58 to 62: \<open>videos\<close> is the list built so far.\<close>

fun episode_loop :: "episode list \<Rightarrow> string list \<Rightarrow> episode list" where
  "episode_loop videos [] = videos"
| "episode_loop videos (episode # rest) =
     (let parts = py_split ''$'' episode in
      if length parts = 2
      then episode_loop (videos @ [\<lparr>video_name = parts ! 0, video_url = parts ! 1\<rparr>]) rest
      else episode_loop videos rest)"

record title =
  title_name :: json
  vod_pic :: json
  videos :: "episode list"
  vod_id :: json
  vod_douban_id :: json

record source_result =
  source_name :: string
  result :: "title list"

text \<open>
  The body of the outer loop, lines 54 to 71, for one \<open>item\<close>. \<^verbatim>\<open>item.get\<close> raises
  AttributeError when the item is not a dict, and so does \<^verbatim>\<open>.split\<close> when the value of
  \<^verbatim>\<open>vod_play_url\<close> is not a string; \<^verbatim>\<open>[0]\<close> raises IndexError on an empty list.
\<close>

fun parse_item :: "title list \<Rightarrow> json \<Rightarrow> error + title list" where
  "parse_item results (JObj item) =
     (case dict_get item ''vod_play_url'' (JStr '''') of
        JStr s \<Rightarrow>
          (case py_split ''$$$'' s of
             [] \<Rightarrow> Inl IndexError
           | play_urls_str # _ \<Rightarrow>
               (let videos = episode_loop [] (py_split ''#'' play_urls_str) in
                if videos \<noteq> []
                then Inr (results @
                  [\<lparr>title_name = dict_get item ''vod_name'' (JStr unknown_name),
                    vod_pic = dict_get item ''vod_pic'' (JStr ''''),
                    videos = videos,
                    vod_id = dict_get item ''vod_id'' (JStr ''''),
                    vod_douban_id = dict_get item ''vod_douban_id'' (JStr '''')\<rparr>])
                else Inr results))
      | _ \<Rightarrow> Inl AttributeError)"
| "parse_item results _ = Inl AttributeError"

fun item_loop :: "title list \<Rightarrow> json list \<Rightarrow> error + title list" where
  "item_loop results [] = Inr results"
| "item_loop results (item # rest) =
     (case parse_item results item of
        Inl e \<Rightarrow> Inl e
      | Inr results' \<Rightarrow> item_loop results' rest)"

definition parse_cms_data :: "string \<Rightarrow> json \<Rightarrow> error + source_result" where
  "parse_cms_data name cms_list =
     (case py_iter cms_list of
        Inl e \<Rightarrow> Inl e
      | Inr items \<Rightarrow>
          (case item_loop [] items of
             Inl e \<Rightarrow> Inl e
           | Inr results \<Rightarrow> Inr \<lparr>source_name = name, result = results\<rparr>))"

section \<open>The per-source fetch: \<^verbatim>\<open>fetch_and_process\<close>\<close>

text \<open>
  A source is a dict with the keys \<^verbatim>\<open>name\<close> and \<^verbatim>\<open>base_url\<close>, both strings: the shape the
  class \<^verbatim>\<open>BaseUrlItem\<close> validates.
\<close>

record source =
  src_name :: string
  base_url :: string

text \<open>
  What \<^verbatim>\<open>client.get\<close> and \<^verbatim>\<open>response.json()\<close> do is outside the program, so the model takes it
  as a parameter: for the URL requested, either the call raises (connection refused, DNS
  failure, timeout, a missing \<^verbatim>\<open>timeout\<close> key in the configuration), or a response arrives
  with a status code and a body that \<^verbatim>\<open>response.json()\<close> decodes (\<open>Some\<close>) or rejects by
  raising (\<open>None\<close>).
\<close>

datatype http_result = Raised | Response nat "json option"

type_synonym client = "string \<Rightarrow> http_result"

text \<open>
  Modelled from the spec: \<^verbatim>\<open>raise_for_status\<close> belongs to the HTTP library, which is not
  part of the sources; the spec says that every non-2xx status fails the fetch.
\<close>

definition is_success :: "nat \<Rightarrow> bool" where
  "is_success status \<longleftrightarrow> 200 \<le> status \<and> status \<le> 299"

text \<open>Line 82, the f-string.\<close>

definition request_url :: "source \<Rightarrow> string \<Rightarrow> string" where
  "request_url source keyword = base_url source @ ''?ac=detail&wd='' @ keyword"

text \<open>
  Lines 87 to 103. \<^verbatim>\<open>data.get\<close> raises AttributeError when the body is not a JSON object;
  \<^verbatim>\<open>except Exception\<close> turns every error, the parser's included, into \<^verbatim>\<open>None\<close>.
\<close>

definition fetch_and_process :: "client \<Rightarrow> source \<Rightarrow> string \<Rightarrow> source_result option" where
  "fetch_and_process client source keyword =
     (let url = request_url source keyword;
          name = src_name source
      in case client url of
           Raised \<Rightarrow> None
         | Response status body \<Rightarrow>
             if \<not> is_success status then None
             else (case body of
                     None \<Rightarrow> None
                   | Some (JObj data) \<Rightarrow>
                       if py_eq_1 (dict_get data ''code'' JNull)
                          \<and> truthy (dict_get data ''list'' JNull)
                       then (case parse_cms_data name (dict_get data ''list'' JNull) of
                               Inl e \<Rightarrow> None
                             | Inr r \<Rightarrow> Some r)
                       else None
                   | Some _ \<Rightarrow> None))"

text \<open>
  The argument of the call on line 98: the value that the fetch hands to
  \<^verbatim>\<open>parse_cms_data\<close>, when the request, the status check, the decoding and the test of line
  97 let it reach that line; \<open>None\<close> when the parser is not called.
\<close>

definition parser_call :: "client \<Rightarrow> source \<Rightarrow> string \<Rightarrow> json option" where
  "parser_call client source keyword =
     (case client (request_url source keyword) of
        Raised \<Rightarrow> None
      | Response status body \<Rightarrow>
          if \<not> is_success status then None
          else (case body of
                  None \<Rightarrow> None
                | Some (JObj data) \<Rightarrow>
                    if py_eq_1 (dict_get data ''code'' JNull)
                       \<and> truthy (dict_get data ''list'' JNull)
                    then Some (dict_get data ''list'' JNull)
                    else None
                | Some _ \<Rightarrow> None))"

section \<open>The streaming generator: \<^verbatim>\<open>search_event_generator\<close>\<close>

text \<open>
  One event of the stream: the frame \<^verbatim>\<open>data: <json>\<close> followed by an empty line, where the
  JSON text is the dump of the source's result.
\<close>

datatype sse_event = Data source_result

text \<open>
  The tasks, lines 110 to 113: task \<open>i\<close> fetches source \<open>i\<close>. The network is a parameter that
  gives each task the behaviour of its own request, so two sources with the same URL may
  fare differently.
\<close>

fun create_tasks :: "(nat \<Rightarrow> client) \<Rightarrow> string \<Rightarrow> nat \<Rightarrow> source list \<Rightarrow> source_result option list" where
  "create_tasks net keyword i [] = []"
| "create_tasks net keyword i (source # sources) =
     fetch_and_process (net i) source keyword # create_tasks net keyword (Suc i) sources"

text \<open>
  \<^verbatim>\<open>asyncio.as_completed\<close> hands the tasks over in the order in which they finish. That order
  is decided by the network and the event loop, so it is a parameter: the list \<open>order\<close> of
  task indices, first finished first. Every task finishes exactly once.
\<close>

definition completion_order :: "nat \<Rightarrow> nat list \<Rightarrow> bool" where
  "completion_order n order \<longleftrightarrow> sort order = [0..<n]"

text \<open>Line 117: \<^verbatim>\<open>result and result.get("result")\<close>.\<close>

fun emits :: "source_result option \<Rightarrow> bool" where
  "emits None = False"
| "emits (Some r) = (result r \<noteq> [])"

text \<open>The loop of lines 115 to 118; an index that names no task yields nothing.\<close>

fun as_completed_loop :: "source_result option list \<Rightarrow> nat list \<Rightarrow> sse_event list" where
  "as_completed_loop tasks [] = []"
| "as_completed_loop tasks (i # order) =
     (if i < length tasks
      then (case tasks ! i of
              None \<Rightarrow> as_completed_loop tasks order
            | Some r \<Rightarrow>
                if result r \<noteq> [] then Data r # as_completed_loop tasks order
                else as_completed_loop tasks order)
      else as_completed_loop tasks order)"

definition search_event_generator ::
  "(nat \<Rightarrow> client) \<Rightarrow> nat list \<Rightarrow> string \<Rightarrow> source list \<Rightarrow> sse_event list" where
  "search_event_generator net order keyword sources =
     as_completed_loop (create_tasks net keyword 0 sources) order"

section \<open>The configuration update: \<^verbatim>\<open>update_config\<close>\<close>

record site_config_model =
  site_name :: string
  pc_background_image_url :: string
  phone_background_image_url :: string
  timeout :: int
  base_urls :: "source list"

text \<open>
  \<^verbatim>\<open>model_dump()\<close>: the model as a dict. The fields were validated as strings, an
  integer and a list of items when the request was decoded, so the dump returns.
\<close>

definition dump_source :: "source \<Rightarrow> json" where
  "dump_source b = JObj [(''name'', JStr (src_name b)), (''base_url'', JStr (base_url b))]"

definition model_dump :: "site_config_model \<Rightarrow> json" where
  "model_dump c =
     JObj [(''site_name'', JStr (site_name c)),
           (''pc_background_image_url'', JStr (pc_background_image_url c)),
           (''phone_background_image_url'', JStr (phone_background_image_url c)),
           (''timeout'', JInt (timeout c)),
           (''base_urls'', JArr (map dump_source (base_urls c)))]"

text \<open>
  The state the handler touches: the global \<^verbatim>\<open>site_config\<close> and the files on disk. What
  the serializer and the file system do is a parameter: \<^verbatim>\<open>model_dump_json\<close> returns the text
  or raises with a message; opening the file for writing raises and leaves the file alone,
  or truncates it, after which the write raises leaving some text behind, or succeeds.
\<close>

record server_state =
  site_config :: json
  files :: "string \<rightharpoonup> string"

datatype fs_outcome = Open_raises string | Write_raises string string | Written

record environment =
  model_dump_json :: "site_config_model \<Rightarrow> string + string"
  write_file :: "string \<Rightarrow> string \<Rightarrow> fs_outcome"

datatype http_response = Success string json | HTTPException nat string

definition update_config ::
  "environment \<Rightarrow> site_config_model \<Rightarrow> server_state \<Rightarrow> http_response \<times> server_state" where
  "update_config env config_data st =
     (case model_dump_json env config_data of
        Inl e \<Rightarrow> (HTTPException 500 (''Error updating config: '' @ e), st)
      | Inr config_json_string \<Rightarrow>
          (let file_path = ''config.json'' in
           case write_file env file_path config_json_string of
             Open_raises e \<Rightarrow> (HTTPException 500 (''Error updating config: '' @ e), st)
           | Write_raises e left \<Rightarrow>
               (HTTPException 500 (''Error updating config: '' @ e),
                st\<lparr>files := (files st)(file_path \<mapsto> left)\<rparr>)
           | Written \<Rightarrow>
               (let st' = st\<lparr>files := (files st)(file_path \<mapsto> config_json_string),
                              site_config := model_dump config_data\<rparr>
                in (Success ''Configuration updated and saved successfully.'' (site_config st'),
                    st'))))"

section \<open>The request URL as the specification words it\<close>

text \<open>
  The specification asks for the keyword to be percent-encoded. This is the encoding of
  RFC 3986: letters, digits and the four marks are kept, every other byte becomes a
  percent sign and two hexadecimal digits.
\<close>

definition spec_unreserved :: "char \<Rightarrow> bool" where
  "spec_unreserved c \<longleftrightarrow>
     c \<in> set ''abcdefghijklmnopqrstuvwxyzABCDEFGHIJKLMNOPQRSTUVWXYZ0123456789-._~''"

definition spec_hex_digit :: "nat \<Rightarrow> char" where
  "spec_hex_digit n = ''0123456789ABCDEF'' ! (n mod 16)"

fun spec_percent_encode :: "string \<Rightarrow> string" where
  "spec_percent_encode [] = []"
| "spec_percent_encode (c # cs) =
     (if spec_unreserved c then c # spec_percent_encode cs
      else CHR ''%'' # spec_hex_digit (of_char c div 16) # spec_hex_digit (of_char c mod 16)
             # spec_percent_encode cs)"

definition spec_request_url :: "source \<Rightarrow> string \<Rightarrow> string" where
  "spec_request_url source keyword =
     base_url source @ ''?ac=detail&wd='' @ spec_percent_encode keyword"

section \<open>Abbreviations used in the statements\<close>

text \<open>The title that lines 65 to 71 build from an item and its episodes.\<close>

definition title_of :: "(string \<times> json) list \<Rightarrow> episode list \<Rightarrow> title" where
  "title_of item vs =
     \<lparr>title_name = dict_get item ''vod_name'' (JStr unknown_name),
      vod_pic = dict_get item ''vod_pic'' (JStr ''''),
      videos = vs,
      vod_id = dict_get item ''vod_id'' (JStr ''''),
      vod_douban_id = dict_get item ''vod_douban_id'' (JStr '''')\<rparr>"

text \<open>The episodes of one play-scheme string: lines 56 to 62.\<close>

definition episodes_of :: "string \<Rightarrow> episode list" where
  "episodes_of play_urls_str = episode_loop [] (py_split ''#'' play_urls_str)"

text \<open>
  An entry none of whose episode tokens is well formed: a dict whose \<^verbatim>\<open>vod_play_url\<close> (or
  its default) is a string and whose first play scheme has no token with exactly two
  parts.
\<close>

definition malformed_entry :: "json \<Rightarrow> bool" where
  "malformed_entry item =
     (case item of
        JObj d \<Rightarrow>
          (case dict_get d ''vod_play_url'' (JStr '''') of
             JStr s \<Rightarrow>
               list_all (\<lambda>tok. length (py_split ''$'' tok) \<noteq> 2)
                 (py_split ''#'' (hd (py_split ''$$$'' s)))
           | _ \<Rightarrow> False)
      | _ \<Rightarrow> False)"

text \<open>
  The number of events yielded before the generator reaches the task that finished in
  position \<open>p\<close>.
\<close>

definition emission_index :: "source_result option list \<Rightarrow> nat list \<Rightarrow> nat \<Rightarrow> nat" where
  "emission_index tasks order p = length (filter (\<lambda>i. emits (tasks ! i)) (take p order))"

section \<open>Example inputs\<close>

text \<open>
  Two sources. The request of the first is answered with one entry that has no well-formed
  episode, the request of the second with one entry that has one.
\<close>

definition ex_sources :: "source list" where
  "ex_sources =
     [\<lparr>src_name = ''a'', base_url = ''http://a/api''\<rparr>,
      \<lparr>src_name = ''b'', base_url = ''http://b/api''\<rparr>]"

definition ex_net :: "nat \<Rightarrow> client" where
  "ex_net i url =
     (if i = 0
      then Response 200 (Some (JObj [(''code'', JInt 1),
             (''list'', JArr [JObj [(''vod_play_url'', JStr ''x#y'')]])]))
      else Response 200 (Some (JObj [(''code'', JInt 1),
             (''list'', JArr [JObj [(''vod_name'', JStr ''T''),
                                    (''vod_play_url'', JStr ''A$u'')]])])))"

definition ex_bad_item :: json where
  "ex_bad_item = JObj [(''vod_play_url'', JStr ''x#y$z$w$$$A$u'')]"

definition ex_source :: source where
  "ex_source = \<lparr>src_name = ''a'', base_url = ''http://a/api''\<rparr>"

definition ex_body :: json where
  "ex_body = JObj [(''code'', JInt 1),
                   (''list'', JArr [JObj [(''vod_play_url'', JStr ''A$u'')]])]"

text \<open>
  Three sources: the requests of the first and the third are answered with one episode
  each, the request of the second raises.
\<close>

definition ex_sources3 :: "source list" where
  "ex_sources3 =
     [\<lparr>src_name = ''a'', base_url = ''http://a/api''\<rparr>,
      \<lparr>src_name = ''b'', base_url = ''http://b/api''\<rparr>,
      \<lparr>src_name = ''c'', base_url = ''http://c/api''\<rparr>]"

definition ex_net3 :: "nat \<Rightarrow> client" where
  "ex_net3 i url =
     (if i = 0
      then Response 200 (Some (JObj [(''code'', JInt 1),
             (''list'', JArr [JObj [(''vod_name'', JStr ''T''),
                                    (''vod_play_url'', JStr ''A$u'')]])]))
      else if i = 1 then Raised
      else Response 200 (Some (JObj [(''code'', JInt 1),
             (''list'', JArr [JObj [(''vod_name'', JStr ''U''),
                                    (''vod_play_url'', JStr ''B$v'')]])])))"

definition ex_result_a :: source_result where
  "ex_result_a =
     \<lparr>source_name = ''a'',
      result = [\<lparr>title_name = JStr ''T'', vod_pic = JStr '''',
                 videos = [\<lparr>video_name = ''A'', video_url = ''u''\<rparr>],
                 vod_id = JStr '''', vod_douban_id = JStr ''''\<rparr>]\<rparr>"

definition ex_result_c :: source_result where
  "ex_result_c =
     \<lparr>source_name = ''c'',
      result = [\<lparr>title_name = JStr ''U'', vod_pic = JStr '''',
                 videos = [\<lparr>video_name = ''B'', video_url = ''v''\<rparr>],
                 vod_id = JStr '''', vod_douban_id = JStr ''''\<rparr>]\<rparr>"

text \<open>
  A configuration, a state of the server, three environments in which the update fails
  and one in which it succeeds.
\<close>

definition ex_config :: site_config_model where
  "ex_config =
     \<lparr>site_name = ''s'', pc_background_image_url = ''p'', phone_background_image_url = ''q'',
      timeout = 5, base_urls = [ex_source]\<rparr>"

definition ex_state :: server_state where
  "ex_state = \<lparr>site_config = JObj [(''timeout'', JInt 3)], files = Map.empty\<rparr>"

definition ex_env_dump_fails :: environment where
  "ex_env_dump_fails =
     \<lparr>model_dump_json = (\<lambda>c. Inl ''cannot serialize''), write_file = (\<lambda>path content. Written)\<rparr>"

definition ex_env_open_fails :: environment where
  "ex_env_open_fails =
     \<lparr>model_dump_json = (\<lambda>c. Inr ''{}''),
      write_file = (\<lambda>path content. Open_raises ''permission denied'')\<rparr>"

definition ex_env_write_fails :: environment where
  "ex_env_write_fails =
     \<lparr>model_dump_json = (\<lambda>c. Inr ''{}''),
      write_file = (\<lambda>path content. Write_raises ''no space left'' ''{'')\<rparr>"

definition ex_env_ok :: environment where
  "ex_env_ok =
     \<lparr>model_dump_json = (\<lambda>c. Inr ''{}''), write_file = (\<lambda>path content. Written)\<rparr>"

section \<open>Splitting\<close>

declare py_split.simps [simp del]

lemma py_split_Nil [simp]: "py_split sep [] = [[]]"
  by (simp add: py_split.simps)

lemma py_split_Cons:
  "py_split sep (c # s) =
     (if sep \<noteq> [] \<and> prefix sep (c # s) then [] # py_split sep (drop (length sep) (c # s))
      else (case py_split sep s of [] \<Rightarrow> [[c]] | w # ws \<Rightarrow> (c # w) # ws))"
  by (subst py_split.simps) (simp split: list.splits)

lemma py_split_not_Nil [simp]: "py_split sep s \<noteq> []"
  by (induction sep s rule: py_split.induct) (subst py_split.simps, simp split: list.splits)

lemma py_split_char_Cons:
  "py_split [c] (x # s) =
     (if x = c then [] # py_split [c] s
      else (x # hd (py_split [c] s)) # tl (py_split [c] s))"
  by (simp add: py_split_Cons split: list.splits)

lemma length_py_split_char: "length (py_split [c] s) = Suc (count_list s c)"
  by (induction s) (auto simp: py_split_char_Cons)

lemma py_split_char_absent: "c \<notin> set s \<Longrightarrow> py_split [c] s = [s]"
  by (induction s) (auto simp: py_split_char_Cons)

lemma py_split_char_first: "c \<notin> set p \<Longrightarrow> py_split [c] (p @ c # s) = p # py_split [c] s"
  by (induction p) (auto simp: py_split_char_Cons)

lemma py_split_char_two:
  assumes "count_list t c = 1"
  shows "py_split [c] t = [takeWhile (\<lambda>x. x \<noteq> c) t, tl (dropWhile (\<lambda>x. x \<noteq> c) t)]"
proof -
  let ?n = "takeWhile (\<lambda>x. x \<noteq> c) t" and ?d = "dropWhile (\<lambda>x. x \<noteq> c) t"
  from assms have "c \<in> set t"
    by (metis count_list_0_iff zero_neq_one)
  then have d: "?d = c # tl ?d"
    by (metis (mono_tags, lifting) dropWhile_eq_Nil_conv hd_dropWhile list.collapse)
  have t: "t = ?n @ c # tl ?d"
    using d by (metis takeWhile_dropWhile_id)
  have n: "c \<notin> set ?n"
    by (auto dest: set_takeWhileD)
  have "count_list t c = count_list ?n c + Suc (count_list (tl ?d) c)"
    by (subst t) simp
  with assms n have "count_list (tl ?d) c = 0"
    by (simp add: count_list_0_iff)
  then have u: "c \<notin> set (tl ?d)"
    by (simp add: count_list_0_iff)
  have "py_split [c] (?n @ c # tl ?d) = ?n # py_split [c] (tl ?d)"
    using n by (rule py_split_char_first)
  also have "\<dots> = [?n, tl ?d]"
    using u by (simp add: py_split_char_absent)
  finally show ?thesis using t by simp
qed






section \<open>The parser's loops\<close>

lemma episode_loop_acc: "episode_loop acc ts = acc @ episode_loop [] ts"
proof (induction ts arbitrary: acc)
  case Nil
  show ?case by simp
next
  case (Cons t ts)
  show ?case
    using Cons.IH [of "acc @ [\<lparr>video_name = py_split ''$'' t ! 0, video_url = py_split ''$'' t ! 1\<rparr>]"]
          Cons.IH [of "[\<lparr>video_name = py_split ''$'' t ! 0, video_url = py_split ''$'' t ! 1\<rparr>]"]
          Cons.IH [of acc]
    by (simp add: Let_def)
qed

lemma episode_loop_append:
  "episode_loop acc (ts1 @ ts2) = episode_loop (episode_loop acc ts1) ts2"
  by (induction ts1 arbitrary: acc) (simp_all add: Let_def)

lemma episode_loop_filter:
  "episode_loop [] ts =
     map (\<lambda>t. \<lparr>video_name = py_split ''$'' t ! 0, video_url = py_split ''$'' t ! 1\<rparr>)
       (filter (\<lambda>t. length (py_split ''$'' t) = 2) ts)"
proof (induction ts)
  case Nil
  show ?case by simp
next
  case (Cons t ts)
  show ?case
    using Cons.IH
      episode_loop_acc [of "[\<lparr>video_name = py_split ''$'' t ! 0, video_url = py_split ''$'' t ! 1\<rparr>]" ts]
    by (simp add: Let_def)
qed

lemma parse_item_dict:
  "parse_item results (JObj item) =
     (case dict_get item ''vod_play_url'' (JStr '''') of
        JStr s \<Rightarrow>
          (let vs = episodes_of (hd (py_split ''$$$'' s)) in
           if vs \<noteq> [] then Inr (results @ [title_of item vs]) else Inr results)
      | _ \<Rightarrow> Inl AttributeError)"
  by (simp add: title_of_def episodes_of_def Let_def split: json.splits list.splits)

declare parse_item.simps(1) [simp del]

lemma parse_item_Inr:
  assumes "parse_item results item = Inr results'"
  shows "results' = results \<or> (\<exists>t. results' = results @ [t] \<and> videos t \<noteq> [])"
proof (cases item)
  case (JObj d)
  with assms show ?thesis
    by (auto simp: parse_item_dict title_of_def Let_def split: json.splits if_splits)
qed (use assms in simp_all)


lemma item_loop_videos:
  assumes "item_loop results items = Inr results'"
      and "\<forall>t\<in>set results. videos t \<noteq> []"
  shows "\<forall>t\<in>set results'. videos t \<noteq> []"
  using assms
proof (induction items arbitrary: results)
  case Nil
  then show ?case by simp
next
  case (Cons item items)
  from Cons.prems(1) obtain mid where
    mid: "parse_item results item = Inr mid" and rest: "item_loop mid items = Inr results'"
    by (auto split: sum.splits)
  from parse_item_Inr [OF mid] Cons.prems(2) have "\<forall>t\<in>set mid. videos t \<noteq> []"
    by auto
  with rest show ?case by (rule Cons.IH)
qed

lemma as_completed_loop_emits:
  "e \<in> set (as_completed_loop tasks order) \<Longrightarrow> \<exists>r. e = Data r \<and> result r \<noteq> []"
  by (induction order) (auto split: if_splits option.splits)

lemma parse_cms_data_videos:
  assumes "parse_cms_data name cms_list = Inr r"
  shows "\<forall>t\<in>set (result r). videos t \<noteq> []"
proof -
  from assms obtain items results where
    "item_loop [] items = Inr results" and "r = \<lparr>source_name = name, result = results\<rparr>"
    by (auto simp: parse_cms_data_def split: sum.splits)
  then show ?thesis
    using item_loop_videos [of "[]" items results] by simp
qed

lemma episode_loop_all_malformed:
  "\<forall>t\<in>set ts. length (py_split ''$'' t) \<noteq> 2 \<Longrightarrow> episode_loop acc ts = acc"
  by (induction ts) (simp_all add: Let_def)

section \<open>The fetch and the generator\<close>

lemma fetch_and_process_Some:
  assumes "fetch_and_process client source keyword = Some r"
  shows "\<exists>status data.
           client (request_url source keyword) = Response status (Some (JObj data))
           \<and> is_success status
           \<and> py_eq_1 (dict_get data ''code'' JNull)
           \<and> truthy (dict_get data ''list'' JNull)
           \<and> parse_cms_data (src_name source) (dict_get data ''list'' JNull) = Inr r"
  using assms
  by (auto simp: fetch_and_process_def Let_def
           split: http_result.splits option.splits json.splits if_splits sum.splits)

lemma length_create_tasks [simp]:
  "length (create_tasks net keyword i sources) = length sources"
  by (induction sources arbitrary: i) simp_all

lemma nth_create_tasks:
  "j < length sources \<Longrightarrow>
     create_tasks net keyword i sources ! j = fetch_and_process (net (i + j)) (sources ! j) keyword"
proof (induction sources arbitrary: i j)
  case Nil
  then show ?case by simp
next
  case (Cons source sources)
  show ?case
  proof (cases j)
    case 0
    then show ?thesis by simp
  next
    case (Suc k)
    with Cons.prems have "k < length sources" by simp
    from Cons.IH [OF this, of "Suc i"] Suc show ?thesis by simp
  qed
qed

lemma create_tasks_fetch:
  assumes "t \<in> set (create_tasks net keyword i sources)"
  shows "\<exists>j source. t = fetch_and_process (net j) source keyword"
proof -
  from assms obtain j where "j < length sources" and "t = create_tasks net keyword i sources ! j"
    by (metis in_set_conv_nth length_create_tasks)
  then show ?thesis by (auto simp: nth_create_tasks)
qed

lemma as_completed_loop_from_task:
  "Data r \<in> set (as_completed_loop tasks order) \<Longrightarrow> Some r \<in> set tasks"
proof (induction order)
  case Nil
  then show ?case by simp
next
  case (Cons i order)
  show ?case
  proof (cases "i < length tasks \<and> tasks ! i = Some r")
    case True
    then show ?thesis by (metis nth_mem)
  next
    case False
    with Cons show ?thesis by (auto split: if_splits option.splits)
  qed
qed

lemma item_loop_malformed:
  "list_all malformed_entry items \<Longrightarrow> item_loop results items = Inr results"
proof (induction items)
  case Nil
  show ?case by simp
next
  case (Cons item items)
  from Cons.prems have m: "malformed_entry item" and rest: "list_all malformed_entry items"
    by simp_all
  from m obtain d s where item: "item = JObj d"
    and s: "dict_get d ''vod_play_url'' (JStr '''') = JStr s"
    and toks: "list_all (\<lambda>tok. length (py_split ''$'' tok) \<noteq> 2)
                 (py_split ''#'' (hd (py_split ''$$$'' s)))"
    by (auto simp: malformed_entry_def split: json.splits)
  from toks have "episodes_of (hd (py_split ''$$$'' s)) = []"
    unfolding episodes_of_def by (intro episode_loop_all_malformed) (simp add: list_all_iff)
  with item s have "parse_item results item = Inr results"
    by (simp add: parse_item_dict)
  with Cons.IH [OF rest] show ?case by simp
qed

section \<open>Tokens with exactly two parts\<close>

lemma two_parts_iff: "length (py_split [c] t) = 2 \<longleftrightarrow> count_list t c = 1"
  by (simp add: length_py_split_char)

lemma count_one_decomp:
  assumes "count_list t c = 1"
  shows "t = takeWhile (\<lambda>x. x \<noteq> c) t @ c # tl (dropWhile (\<lambda>x. x \<noteq> c) t)
         \<and> c \<notin> set (takeWhile (\<lambda>x. x \<noteq> c) t)
         \<and> c \<notin> set (tl (dropWhile (\<lambda>x. x \<noteq> c) t))"
proof -
  let ?n = "takeWhile (\<lambda>x. x \<noteq> c) t" and ?d = "dropWhile (\<lambda>x. x \<noteq> c) t"
  from assms have "c \<in> set t"
    by (metis count_list_0_iff zero_neq_one)
  then have d: "?d = c # tl ?d"
    by (metis (mono_tags, lifting) dropWhile_eq_Nil_conv hd_dropWhile list.collapse)
  have t: "t = ?n @ c # tl ?d"
    using d by (metis takeWhile_dropWhile_id)
  have n: "c \<notin> set ?n"
    by (auto dest: set_takeWhileD)
  have "count_list t c = count_list ?n c + Suc (count_list (tl ?d) c)"
    by (subst t) simp
  with assms n have "count_list (tl ?d) c = 0"
    by (simp add: count_list_0_iff)
  then have u: "c \<notin> set (tl ?d)"
    by (simp add: count_list_0_iff)
  from t n u show ?thesis by blast
qed

lemma py_split_char_pair:
  "py_split [c] t = [n, u] \<longleftrightarrow> t = n @ c # u \<and> c \<notin> set n \<and> c \<notin> set u"
proof
  assume eq: "py_split [c] t = [n, u]"
  then have "length (py_split [c] t) = 2" by simp
  then have one: "count_list t c = 1" by (simp add: two_parts_iff)
  from py_split_char_two [OF one] eq
  have "n = takeWhile (\<lambda>x. x \<noteq> c) t" and "u = tl (dropWhile (\<lambda>x. x \<noteq> c) t)"
    by simp_all
  with count_one_decomp [OF one] show "t = n @ c # u \<and> c \<notin> set n \<and> c \<notin> set u"
    by simp
next
  assume "t = n @ c # u \<and> c \<notin> set n \<and> c \<notin> set u"
  then show "py_split [c] t = [n, u]"
    by (simp add: py_split_char_first py_split_char_absent)
qed


section \<open>The request and the response shape\<close>

lemma length_spec_percent_encode:
  "length (spec_percent_encode k) = length k + 2 * length (filter (\<lambda>c. \<not> spec_unreserved c) k)"
  by (induction k) simp_all

lemma spec_percent_encode_id: "list_all spec_unreserved k \<Longrightarrow> spec_percent_encode k = k"
  by (induction k) simp_all

lemma spec_percent_encode_eq_iff: "spec_percent_encode k = k \<longleftrightarrow> list_all spec_unreserved k"
proof
  assume eq: "spec_percent_encode k = k"
  have "length (spec_percent_encode k) = length k"
    by (simp add: eq)
  then have "filter (\<lambda>c. \<not> spec_unreserved c) k = []"
    by (simp add: length_spec_percent_encode)
  then show "list_all spec_unreserved k"
    by (simp add: filter_empty_conv list_all_iff)
next
  assume "list_all spec_unreserved k"
  then show "spec_percent_encode k = k" by (rule spec_percent_encode_id)
qed

lemma parse_cms_data_truthy_list:
  assumes "truthy v" and "parse_cms_data name v = Inr r"
  shows "\<exists>l. v = JArr l \<and> l \<noteq> []"
proof (cases v)
  case (JStr s)
  with assms(1) obtain c cs where "s = c # cs" by (cases s) auto
  with JStr assms(2) show ?thesis by (simp add: parse_cms_data_def)
next
  case (JObj d)
  with assms(1) obtain kv kvs where "d = kv # kvs" by (cases d) auto
  with JObj assms(2) show ?thesis by (simp add: parse_cms_data_def)
next
  case (JArr l)
  with assms(1) show ?thesis by simp
qed (use assms in \<open>simp_all add: parse_cms_data_def\<close>)

lemma fetch_and_process_unfold:
  "fetch_and_process client source keyword =
     (case client (request_url source keyword) of
        Raised \<Rightarrow> None
      | Response status body \<Rightarrow>
          if \<not> is_success status then None
          else (case body of
                  None \<Rightarrow> None
                | Some (JObj data) \<Rightarrow>
                    if py_eq_1 (dict_get data ''code'' JNull) \<and> truthy (dict_get data ''list'' JNull)
                    then (case parse_cms_data (src_name source) (dict_get data ''list'' JNull) of
                            Inl e \<Rightarrow> None
                          | Inr r \<Rightarrow> Some r)
                    else None
                | Some _ \<Rightarrow> None))"
  by (simp add: fetch_and_process_def Let_def)

lemma fetch_and_process_expected:
  assumes "client (request_url source keyword) = Response status (Some (JObj data))"
      and "is_success status"
      and "py_eq_1 (dict_get data ''code'' JNull)"
      and "dict_get data ''list'' JNull = JArr l" and "l \<noteq> []"
  shows "fetch_and_process client source keyword =
           (case parse_cms_data (src_name source) (JArr l) of Inl e \<Rightarrow> None | Inr r \<Rightarrow> Some r)"
  using assms by (simp add: fetch_and_process_unfold)

lemma fetch_and_process_Some_iff:
  "fetch_and_process client source keyword = Some r \<longleftrightarrow>
     (\<exists>status data l.
        client (request_url source keyword) = Response status (Some (JObj data))
        \<and> is_success status
        \<and> py_eq_1 (dict_get data ''code'' JNull)
        \<and> dict_get data ''list'' JNull = JArr l \<and> l \<noteq> []
        \<and> parse_cms_data (src_name source) (JArr l) = Inr r)"
proof
  assume "fetch_and_process client source keyword = Some r"
  from fetch_and_process_Some [OF this] obtain status data where
    c: "client (request_url source keyword) = Response status (Some (JObj data))"
    and s: "is_success status" and e: "py_eq_1 (dict_get data ''code'' JNull)"
    and t: "truthy (dict_get data ''list'' JNull)"
    and p: "parse_cms_data (src_name source) (dict_get data ''list'' JNull) = Inr r"
    by blast
  from parse_cms_data_truthy_list [OF t p] obtain l where
    "dict_get data ''list'' JNull = JArr l" and "l \<noteq> []" by blast
  with c s e p show "\<exists>status data l.
        client (request_url source keyword) = Response status (Some (JObj data))
        \<and> is_success status
        \<and> py_eq_1 (dict_get data ''code'' JNull)
        \<and> dict_get data ''list'' JNull = JArr l \<and> l \<noteq> []
        \<and> parse_cms_data (src_name source) (JArr l) = Inr r"
    by auto
next
  assume "\<exists>status data l.
        client (request_url source keyword) = Response status (Some (JObj data))
        \<and> is_success status
        \<and> py_eq_1 (dict_get data ''code'' JNull)
        \<and> dict_get data ''list'' JNull = JArr l \<and> l \<noteq> []
        \<and> parse_cms_data (src_name source) (JArr l) = Inr r"
  then show "fetch_and_process client source keyword = Some r"
    by (auto simp: fetch_and_process_expected)
qed

section \<open>The order of emission\<close>

lemma as_completed_loop_filter:
  "as_completed_loop tasks order =
     map (\<lambda>i. Data (the (tasks ! i))) (filter (\<lambda>i. i < length tasks \<and> emits (tasks ! i)) order)"
proof (induction order)
  case Nil
  show ?case by simp
next
  case (Cons i order)
  show ?case
  proof (cases "i < length tasks")
    case False
    with Cons.IH show ?thesis by simp
  next
    case True
    with Cons.IH show ?thesis by (cases "tasks ! i") simp_all
  qed
qed

lemma completion_order_set:
  assumes "completion_order n order"
  shows "set order = {0..<n}" and "mset order = mset [0..<n]" and "length order = n"
proof -
  from assms have s: "sort order = [0..<n]" by (simp add: completion_order_def)
  have "mset (sort order) = mset order" by simp
  with s show m: "mset order = mset [0..<n]" by simp
  from m have "set_mset (mset order) = set_mset (mset [0..<n])" by simp
  then show "set order = {0..<n}" by simp
  from m have "size (mset order) = size (mset [0..<n])" by simp
  then show "length order = n" by simp
qed

lemma as_completed_loop_complete:
  assumes "completion_order (length tasks) order"
  shows "as_completed_loop tasks order =
           map (\<lambda>i. Data (the (tasks ! i))) (filter (\<lambda>i. emits (tasks ! i)) order)"
proof -
  have "filter (\<lambda>i. i < length tasks \<and> emits (tasks ! i)) order
          = filter (\<lambda>i. emits (tasks ! i)) order"
    using completion_order_set(1) [OF assms] by (intro filter_cong) auto
  then show ?thesis by (simp add: as_completed_loop_filter)
qed

lemma emitting_tasks_by_index:
  "map (\<lambda>i. Data (the (tasks ! i))) (filter (\<lambda>i. emits (tasks ! i)) [0..<length tasks])
     = map (\<lambda>t. Data (the t)) (filter emits tasks)"
proof -
  have "map (\<lambda>t. Data (the t)) (filter emits (map ((!) tasks) [0..<length tasks]))
          = map (\<lambda>i. Data (the (tasks ! i))) (filter (\<lambda>i. emits (tasks ! i)) [0..<length tasks])"
    by (simp add: filter_map comp_def)
  then show ?thesis by (simp add: map_nth)
qed

lemma mset_as_completed_loop:
  assumes "completion_order (length tasks) order"
  shows "mset (as_completed_loop tasks order) = mset (map (\<lambda>t. Data (the t)) (filter emits tasks))"
proof -
  have "mset (as_completed_loop tasks order)
          = image_mset (\<lambda>i. Data (the (tasks ! i))) (filter_mset (\<lambda>i. emits (tasks ! i)) (mset order))"
    by (simp add: as_completed_loop_complete [OF assms])
  also have "\<dots> = image_mset (\<lambda>i. Data (the (tasks ! i)))
                      (filter_mset (\<lambda>i. emits (tasks ! i)) (mset [0..<length tasks]))"
    by (simp only: completion_order_set(2) [OF assms])
  also have "\<dots> = mset (map (\<lambda>i. Data (the (tasks ! i)))
                      (filter (\<lambda>i. emits (tasks ! i)) [0..<length tasks]))"
    by simp
  finally show ?thesis by (simp only: emitting_tasks_by_index)
qed

lemma filter_nth_position:
  assumes "p < length xs" and "P (xs ! p)"
  shows "length (filter P (take p xs)) < length (filter P xs)"
    and "filter P xs ! length (filter P (take p xs)) = xs ! p"
proof -
  from assms(1) have "xs = take p xs @ xs ! p # drop (Suc p) xs"
    by (rule id_take_nth_drop)
  then have "filter P xs = filter P (take p xs) @ filter P (xs ! p # drop (Suc p) xs)"
    by (metis filter_append)
  with assms(2) have f: "filter P xs = filter P (take p xs) @ xs ! p # filter P (drop (Suc p) xs)"
    by simp
  have "length (filter P xs) = length (filter P (take p xs)) + Suc (length (filter P (drop (Suc p) xs)))"
    using arg_cong [OF f, of length] by simp
  then show "length (filter P (take p xs)) < length (filter P xs)"
    by simp
  have "(filter P (take p xs) @ xs ! p # filter P (drop (Suc p) xs)) ! length (filter P (take p xs))
          = xs ! p"
    by (rule nth_append_length)
  with f show "filter P xs ! length (filter P (take p xs)) = xs ! p"
    by simp
qed

lemma filter_take_mono:
  assumes "p < q" and "q \<le> length xs" and "P (xs ! p)"
  shows "length (filter P (take p xs)) < length (filter P (take q xs))"
proof -
  from assms have "p < length (take q xs)" and "P (take q xs ! p)" by simp_all
  then have "length (filter P (take p (take q xs))) < length (filter P (take q xs))"
    by (rule filter_nth_position(1) [of p "take q xs" P])
  moreover from assms(1) have "take p (take q xs) = take p xs" by (simp add: min_def)
  ultimately show ?thesis by simp
qed

lemma ex_tasks3:
  "create_tasks ex_net3 ''k'' 0 ex_sources3 = [Some ex_result_a, None, Some ex_result_c]"
  by (simp add: ex_net3_def ex_sources3_def ex_result_a_def ex_result_c_def
        fetch_and_process_unfold request_url_def is_success_def dict_get_def parse_cms_data_def
        parse_item.simps py_split_Cons Let_def)

lemma ex_order3: "completion_order (length ex_sources3) [2, 1, 0]"
  by (simp add: ex_sources3_def completion_order_def upt_rec)

section \<open>What reaches the parser\<close>

lemma fetch_and_process_via_parser:
  "fetch_and_process client source keyword =
     (case parser_call client source keyword of
        None \<Rightarrow> None
      | Some arg \<Rightarrow>
          (case parse_cms_data (src_name source) arg of Inl e \<Rightarrow> None | Inr r \<Rightarrow> Some r))"
  by (simp add: fetch_and_process_unfold parser_call_def
           split: http_result.splits option.splits json.splits)

lemma parser_call_Some_iff:
  "parser_call client source keyword = Some arg \<longleftrightarrow>
     (\<exists>status data.
        client (request_url source keyword) = Response status (Some (JObj data))
        \<and> is_success status
        \<and> py_eq_1 (dict_get data ''code'' JNull)
        \<and> truthy (dict_get data ''list'' JNull)
        \<and> arg = dict_get data ''list'' JNull)"
  by (auto simp: parser_call_def split: http_result.splits option.splits json.splits if_splits)

lemma parse_cms_data_not_list:
  assumes "truthy arg" and "\<forall>l. arg \<noteq> JArr l"
  shows "\<exists>e. parse_cms_data name arg = Inl e"
proof (cases "parse_cms_data name arg")
  case (Inl e)
  then show ?thesis by blast
next
  case (Inr r)
  from parse_cms_data_truthy_list [OF assms(1) Inr] assms(2) show ?thesis by blast
qed

lemma fetch_failure_outcomes:
  "(client (request_url source keyword) = Raised \<longrightarrow>
      fetch_and_process client source keyword = None)
   \<and> (client (request_url source keyword) = Response status body \<and> \<not> is_success status \<longrightarrow>
      fetch_and_process client source keyword = None)
   \<and> (client (request_url source keyword) = Response status None \<longrightarrow>
      fetch_and_process client source keyword = None)
   \<and> (client (request_url source keyword) = Response status (Some v) \<and> (\<forall>data. v \<noteq> JObj data) \<longrightarrow>
      fetch_and_process client source keyword = None)
   \<and> (client (request_url source keyword) = Response status (Some (JObj data))
        \<and> \<not> py_eq_1 (dict_get data ''code'' JNull) \<longrightarrow>
      fetch_and_process client source keyword = None)
   \<and> (client (request_url source keyword) = Response status (Some (JObj data))
        \<and> \<not> (\<exists>l. dict_get data ''list'' JNull = JArr l \<and> l \<noteq> []) \<longrightarrow>
      fetch_and_process client source keyword = None)
   \<and> (fetch_and_process client source keyword = Some r) =
       (\<exists>status data l.
          client (request_url source keyword) = Response status (Some (JObj data))
          \<and> is_success status
          \<and> py_eq_1 (dict_get data ''code'' JNull)
          \<and> dict_get data ''list'' JNull = JArr l \<and> l \<noteq> []
          \<and> parse_cms_data (src_name source) (JArr l) = Inr r)"
proof -
  have iff: "(fetch_and_process client source keyword = Some r) =
       (\<exists>status data l.
          client (request_url source keyword) = Response status (Some (JObj data))
          \<and> is_success status
          \<and> py_eq_1 (dict_get data ''code'' JNull)
          \<and> dict_get data ''list'' JNull = JArr l \<and> l \<noteq> []
          \<and> parse_cms_data (src_name source) (JArr l) = Inr r)" for r
    by (rule fetch_and_process_Some_iff)
  have none: "fetch_and_process client source keyword = None"
    if "\<And>r. fetch_and_process client source keyword \<noteq> Some r"
    using that by (cases "fetch_and_process client source keyword") auto
  have 1: "fetch_and_process client source keyword = None"
    if "client (request_url source keyword) = Raised"
    using that by (simp add: fetch_and_process_unfold)
  have 2: "fetch_and_process client source keyword = None"
    if "client (request_url source keyword) = Response status body" "\<not> is_success status"
    using that by (simp add: fetch_and_process_unfold)
  have 3: "fetch_and_process client source keyword = None"
    if "client (request_url source keyword) = Response status None"
    using that by (simp add: fetch_and_process_unfold)
  have 4: "fetch_and_process client source keyword = None"
    if "client (request_url source keyword) = Response status (Some v)" "\<forall>data. v \<noteq> JObj data"
    using that by (cases v) (simp_all add: fetch_and_process_unfold)
  have 5: "fetch_and_process client source keyword = None"
    if "client (request_url source keyword) = Response status (Some (JObj data))"
       "\<not> py_eq_1 (dict_get data ''code'' JNull)"
    using that by (simp add: fetch_and_process_unfold)
  have 6: "fetch_and_process client source keyword = None"
    if "client (request_url source keyword) = Response status (Some (JObj data))"
       "\<not> (\<exists>l. dict_get data ''list'' JNull = JArr l \<and> l \<noteq> [])"
  proof (rule none)
    fix r
    show "fetch_and_process client source keyword \<noteq> Some r"
      using that by (auto simp: iff)
  qed
  from 1 2 3 4 5 6 iff show ?thesis by blast
qed

section \<open>Claims\<close>

text \<open>
  C1. Every event the generator yields carries a source result with at least one title,
  and each of its titles has at least one episode; every title in a result of the parser
  has at least one episode; an entry whose episode tokens are all malformed adds no
  title, and a list of such entries parses to the result with no titles; a result with no
  titles is never yielded.
\<close>

theorem emitted_results_nonempty:
  "(\<forall>e\<in>set (search_event_generator net order keyword sources).
      \<exists>r. e = Data r \<and> result r \<noteq> [] \<and> (\<forall>t\<in>set (result r). videos t \<noteq> []))
   \<and> (\<forall>r. parse_cms_data name cms_list = Inr r \<longrightarrow> (\<forall>t\<in>set (result r). videos t \<noteq> []))
   \<and> (malformed_entry item \<longrightarrow> parse_item results item = Inr results)
   \<and> (list_all malformed_entry items \<longrightarrow>
        parse_cms_data name (JArr items) = Inr \<lparr>source_name = name, result = []\<rparr>)
   \<and> Data \<lparr>source_name = name, result = []\<rparr>
        \<notin> set (search_event_generator net order keyword sources)"
proof (intro conjI ballI allI impI)
  fix e
  assume e: "e \<in> set (search_event_generator net order keyword sources)"
  then obtain r where r: "e = Data r" and ne: "result r \<noteq> []"
    unfolding search_event_generator_def by (blast dest: as_completed_loop_emits)
  from e r have "Some r \<in> set (create_tasks net keyword 0 sources)"
    unfolding search_event_generator_def by (blast dest: as_completed_loop_from_task)
  then obtain j source where "fetch_and_process (net j) source keyword = Some r"
    by (metis create_tasks_fetch)
  then obtain v where "parse_cms_data (src_name source) v = Inr r"
    by (blast dest: fetch_and_process_Some)
  then have "\<forall>t\<in>set (result r). videos t \<noteq> []"
    by (rule parse_cms_data_videos)
  with r ne show "\<exists>r. e = Data r \<and> result r \<noteq> [] \<and> (\<forall>t\<in>set (result r). videos t \<noteq> [])"
    by blast
next
  fix r t
  assume "parse_cms_data name cms_list = Inr r" and "t \<in> set (result r)"
  then show "videos t \<noteq> []"
    using parse_cms_data_videos by blast
next
  assume "malformed_entry item"
  then have "item_loop results [item] = Inr results"
    by (intro item_loop_malformed) simp
  then show "parse_item results item = Inr results"
    by (simp split: sum.splits)
next
  assume "list_all malformed_entry items"
  then have "item_loop [] items = Inr []"
    by (rule item_loop_malformed)
  then show "parse_cms_data name (JArr items) = Inr \<lparr>source_name = name, result = []\<rparr>"
    by (simp add: parse_cms_data_def)
next
  show "Data \<lparr>source_name = name, result = []\<rparr>
          \<notin> set (search_event_generator net order keyword sources)"
    unfolding search_event_generator_def by (auto dest: as_completed_loop_emits)
qed

theorem emitted_results_nonempty_witness:
  "search_event_generator ex_net [1, 0] ''k'' ex_sources
     = [Data \<lparr>source_name = ''b'',
              result = [\<lparr>title_name = JStr ''T'', vod_pic = JStr '''',
                         videos = [\<lparr>video_name = ''A'', video_url = ''u''\<rparr>],
                         vod_id = JStr '''', vod_douban_id = JStr ''''\<rparr>]\<rparr>]
   \<and> parse_cms_data ''b'' (JArr [ex_bad_item, JObj [(''vod_play_url'', JStr ''A$u'')]])
       = Inr \<lparr>source_name = ''b'', result = [title_of [(''vod_play_url'', JStr ''A$u'')]
                                               [\<lparr>video_name = ''A'', video_url = ''u''\<rparr>]]\<rparr>
   \<and> malformed_entry ex_bad_item
   \<and> parse_item [] ex_bad_item = Inr []
   \<and> list_all malformed_entry [JObj [], ex_bad_item]
   \<and> parse_cms_data ''a'' (JArr [JObj [], ex_bad_item]) = Inr \<lparr>source_name = ''a'', result = []\<rparr>
   \<and> Data \<lparr>source_name = ''a'', result = []\<rparr>
        \<notin> set (search_event_generator ex_net [1, 0] ''k'' ex_sources)"
proof -
  have run: "search_event_generator ex_net [1, 0] ''k'' ex_sources
     = [Data \<lparr>source_name = ''b'',
              result = [\<lparr>title_name = JStr ''T'', vod_pic = JStr '''',
                         videos = [\<lparr>video_name = ''A'', video_url = ''u''\<rparr>],
                         vod_id = JStr '''', vod_douban_id = JStr ''''\<rparr>]\<rparr>]"
    by (simp add: search_event_generator_def ex_net_def ex_sources_def fetch_and_process_def
          request_url_def is_success_def dict_get_def parse_cms_data_def parse_item.simps
          py_split_Cons Let_def)
  have parse: "parse_cms_data ''b'' (JArr [ex_bad_item, JObj [(''vod_play_url'', JStr ''A$u'')]])
       = Inr \<lparr>source_name = ''b'', result = [title_of [(''vod_play_url'', JStr ''A$u'')]
                                               [\<lparr>video_name = ''A'', video_url = ''u''\<rparr>]]\<rparr>"
    by (simp add: parse_cms_data_def ex_bad_item_def parse_item.simps title_of_def dict_get_def
          py_split_Cons Let_def)
  have bad: "malformed_entry ex_bad_item"
    by (simp add: malformed_entry_def ex_bad_item_def dict_get_def py_split_Cons)
  have bad2: "list_all malformed_entry [JObj [], ex_bad_item]"
    by (simp add: malformed_entry_def ex_bad_item_def dict_get_def py_split_Cons)
  from emitted_results_nonempty
         [of ex_net "[1, 0]" "''k''" ex_sources "''b''"
             "JArr [ex_bad_item, JObj [(''vod_play_url'', JStr ''A$u'')]]"
             ex_bad_item "[]" "[JObj [], ex_bad_item]"]
       emitted_results_nonempty
         [of ex_net "[1, 0]" "''k''" ex_sources "''a''" "JArr []"
             ex_bad_item "[]" "[JObj [], ex_bad_item]"]
  show ?thesis using run parse bad bad2 by simp
qed

text \<open>
  C2, as the code has it. The test of line 60 is on the number of parts only: a token is
  kept exactly when splitting it on the dollar sign yields two parts, that is when it
  contains exactly one dollar sign; the name is the text before it and the URL the text
  after it, and either may be empty. At the token \<^verbatim>\<open>A$\<close> the parser builds an episode whose
  URL is empty, inside a title of the result.
\<close>

theorem episode_empty_field_counterexample:
  "py_split ''$'' ''A$'' = [''A'', '''']
   \<and> parse_cms_data ''s'' (JArr [JObj [(''vod_play_url'', JStr ''A$'')]])
       = Inr \<lparr>source_name = ''s'',
              result = [\<lparr>title_name = JStr unknown_name, vod_pic = JStr '''',
                         videos = [\<lparr>video_name = ''A'', video_url = ''''\<rparr>],
                         vod_id = JStr '''', vod_douban_id = JStr ''''\<rparr>]\<rparr>"
  by (simp add: parse_cms_data_def parse_item.simps dict_get_def py_split_Cons Let_def)

text \<open>
  C2, amended: the episodes of a token list are those of the tokens with exactly two
  parts, in order; a token has two parts exactly when it holds one dollar sign; and the two
  parts are the texts on either side of it, neither of which contains a dollar sign.
\<close>

theorem episode_kept_iff_two_parts:
  "episode_loop [] tokens =
     map (\<lambda>t. \<lparr>video_name = takeWhile (\<lambda>c. c \<noteq> CHR ''$'') t,
                video_url = tl (dropWhile (\<lambda>c. c \<noteq> CHR ''$'') t)\<rparr>)
       (filter (\<lambda>t. length (py_split ''$'' t) = 2) tokens)
   \<and> (length (py_split ''$'' t) = 2) = (count_list t CHR ''$'' = 1)
   \<and> (py_split ''$'' t = [n, u]) = (t = n @ ''$'' @ u \<and> CHR ''$'' \<notin> set n \<and> CHR ''$'' \<notin> set u)"
proof (intro conjI)
  have "map (\<lambda>t. \<lparr>video_name = py_split ''$'' t ! 0, video_url = py_split ''$'' t ! 1\<rparr>)
          (filter (\<lambda>t. length (py_split ''$'' t) = 2) tokens)
      = map (\<lambda>t. \<lparr>video_name = takeWhile (\<lambda>c. c \<noteq> CHR ''$'') t,
                video_url = tl (dropWhile (\<lambda>c. c \<noteq> CHR ''$'') t)\<rparr>)
          (filter (\<lambda>t. length (py_split ''$'' t) = 2) tokens)"
    by (rule map_cong) (auto simp: two_parts_iff py_split_char_two)
  then show "episode_loop [] tokens =
     map (\<lambda>t. \<lparr>video_name = takeWhile (\<lambda>c. c \<noteq> CHR ''$'') t,
                video_url = tl (dropWhile (\<lambda>c. c \<noteq> CHR ''$'') t)\<rparr>)
       (filter (\<lambda>t. length (py_split ''$'' t) = 2) tokens)"
    by (simp only: episode_loop_filter)
next
  show "(length (py_split ''$'' t) = 2) = (count_list t CHR ''$'' = 1)"
    by (rule two_parts_iff)
next
  show "(py_split ''$'' t = [n, u]) = (t = n @ ''$'' @ u \<and> CHR ''$'' \<notin> set n \<and> CHR ''$'' \<notin> set u)"
    using py_split_char_pair [of "CHR ''$''" t n u] by simp
qed

theorem episode_kept_iff_two_parts_witness:
  "episode_loop [] [''A$u'', ''x'', ''$'', ''a$b$c'']
     = [\<lparr>video_name = ''A'', video_url = ''u''\<rparr>, \<lparr>video_name = [], video_url = []\<rparr>]
   \<and> length (py_split ''$'' ''A$u'') = 2 \<and> count_list ''A$u'' CHR ''$'' = 1
   \<and> py_split ''$'' ''A$u'' = [''A'', ''u'']"
proof -
  have two: "length (py_split ''$'' ''A$u'') = 2"
    by (simp add: py_split_Cons)
  have flt: "filter (\<lambda>t. length (py_split ''$'' t) = 2) [''A$u'', ''x'', ''$'', ''a$b$c'']
               = [''A$u'', ''$'']"
    by (simp add: py_split_Cons)
  from episode_kept_iff_two_parts [of "[''A$u'', ''x'', ''$'', ''a$b$c'']" "''A$u''" "''A''" "''u''"]
  show ?thesis using two flt by (simp add: py_split_Cons Let_def)
qed

text \<open>
  C6. A token that does not split into exactly two parts on the dollar sign (it has one
  part, or three or more; a split never yields zero parts) adds no episode, and the
  episodes built from the tokens before and after it are the same as if it were absent.
\<close>

theorem malformed_token_dropped:
  "length (py_split ''$'' t) \<noteq> 2 \<Longrightarrow>
     0 < length (py_split ''$'' t)
     \<and> episode_loop acc (before @ t # after) = episode_loop acc (before @ after)
     \<and> episode_loop acc (before @ t # after) = acc @ episode_loop [] before @ episode_loop [] after"
proof -
  assume bad: "length (py_split ''$'' t) \<noteq> 2"
  have step: "episode_loop a (t # after) = episode_loop a after" for a
    using bad by (simp add: Let_def)
  have one: "episode_loop acc (before @ t # after) = episode_loop acc (before @ after)"
    by (simp only: episode_loop_append step)
  have "episode_loop acc (before @ after) = episode_loop (acc @ episode_loop [] before) after"
    by (simp only: episode_loop_append episode_loop_acc [of acc before])
  also have "\<dots> = (acc @ episode_loop [] before) @ episode_loop [] after"
    by (rule episode_loop_acc)
  finally have two: "episode_loop acc (before @ after) = acc @ episode_loop [] before @ episode_loop [] after"
    by simp
  from one two show ?thesis by simp
qed

theorem malformed_token_dropped_witness:
  "length (py_split ''$'' ''x$y$z'') \<noteq> 2 
   \<and> episode_loop [] ([''A$u''] @ ''x$y$z'' # [''B$v''])
       = [\<lparr>video_name = ''A'', video_url = ''u''\<rparr>, \<lparr>video_name = ''B'', video_url = ''v''\<rparr>]
   \<and> episode_loop [] ([''A$u''] @ ''x$y$z'' # [''B$v'']) = episode_loop [] ([''A$u''] @ [''B$v''])
   \<and> length (py_split ''$'' ''noseparator'') \<noteq> 2
   \<and> episode_loop [] ([''A$u''] @ ''noseparator'' # [''B$v'']) = episode_loop [] ([''A$u''] @ [''B$v''])"
proof -
  have three: "length (py_split ''$'' ''x$y$z'') \<noteq> 2"
    by (simp add: py_split_Cons)
  have one: "length (py_split ''$'' ''noseparator'') \<noteq> 2"
    by (simp add: py_split_Cons)
  have run: "episode_loop [] ([''A$u''] @ [''B$v''])
       = [\<lparr>video_name = ''A'', video_url = ''u''\<rparr>, \<lparr>video_name = ''B'', video_url = ''v''\<rparr>]"
    by (simp add: py_split_Cons Let_def)
  from malformed_token_dropped [OF three, of "[]" "[''A$u'']" "[''B$v'']"]
       malformed_token_dropped [OF one, of "[]" "[''A$u'']" "[''B$v'']"]
  show ?thesis using three one run by (simp only: simp_thms)
qed



text \<open>
  C3, as the code has it. Line 82 puts the keyword into the URL as it is; nothing in the
  program encodes it. For the keyword \<^verbatim>\<open>a&b\<close> the URL built ends in \<^verbatim>\<open>wd=a&b\<close>, where the
  percent-encoded keyword would give \<^verbatim>\<open>wd=a%26b\<close>.
\<close>

theorem request_url_counterexample:
  "request_url \<lparr>src_name = ''a'', base_url = ''http://a/api''\<rparr> ''a&b'' = ''http://a/api?ac=detail&wd=a&b''
   \<and> spec_request_url \<lparr>src_name = ''a'', base_url = ''http://a/api''\<rparr> ''a&b''
        = ''http://a/api?ac=detail&wd=a%26b''
   \<and> request_url \<lparr>src_name = ''a'', base_url = ''http://a/api''\<rparr> ''a&b''
        \<noteq> spec_request_url \<lparr>src_name = ''a'', base_url = ''http://a/api''\<rparr> ''a&b''"
  by (simp add: request_url_def spec_request_url_def spec_unreserved_def spec_hex_digit_def)

text \<open>
  C3, amended: the URL built is the source's \<^verbatim>\<open>base_url\<close>, then \<^verbatim>\<open>?ac=detail&wd=\<close>, then the
  keyword unchanged; it is the only URL the fetch requests (the outcome of the fetch does
  not depend on what the client would answer at any other URL); and it is the URL with the
  percent-encoded keyword exactly when the keyword consists of unreserved characters.
\<close>

theorem request_url_verbatim:
  "request_url source keyword = base_url source @ ''?ac=detail&wd='' @ keyword
   \<and> fetch_and_process client source keyword
       = fetch_and_process
           (\<lambda>url. if url = base_url source @ ''?ac=detail&wd='' @ keyword then client url else Raised)
           source keyword
   \<and> (request_url source keyword = spec_request_url source keyword) = list_all spec_unreserved keyword"
proof (intro conjI)
  show "request_url source keyword = base_url source @ ''?ac=detail&wd='' @ keyword"
    by (simp add: request_url_def)
  then show "fetch_and_process client source keyword
       = fetch_and_process
           (\<lambda>url. if url = base_url source @ ''?ac=detail&wd='' @ keyword then client url else Raised)
           source keyword"
    by (simp add: fetch_and_process_unfold)
  show "(request_url source keyword = spec_request_url source keyword) = list_all spec_unreserved keyword"
    using spec_percent_encode_eq_iff [of keyword]
    by (auto simp: request_url_def spec_request_url_def)
qed

theorem request_url_verbatim_witness:
  "request_url \<lparr>src_name = ''a'', base_url = ''http://a/api''\<rparr> ''a b'' = ''http://a/api?ac=detail&wd=a b''
   \<and> \<not> list_all spec_unreserved ''a b''
   \<and> request_url \<lparr>src_name = ''a'', base_url = ''http://a/api''\<rparr> ''a b''
        \<noteq> spec_request_url \<lparr>src_name = ''a'', base_url = ''http://a/api''\<rparr> ''a b''
   \<and> list_all spec_unreserved ''ab''
   \<and> request_url \<lparr>src_name = ''a'', base_url = ''http://a/api''\<rparr> ''ab''
        = spec_request_url \<lparr>src_name = ''a'', base_url = ''http://a/api''\<rparr> ''ab''"
proof -
  have r: "\<not> list_all spec_unreserved ''a b''" and u: "list_all spec_unreserved ''ab''"
    by (simp_all add: spec_unreserved_def)
  note one = request_url_verbatim [of "\<lparr>src_name = ''a'', base_url = ''http://a/api''\<rparr>" "''a b''" "\<lambda>u. Raised"]
  note two = request_url_verbatim [of "\<lparr>src_name = ''a'', base_url = ''http://a/api''\<rparr>" "''ab''" "\<lambda>u. Raised"]
  have url: "request_url \<lparr>src_name = ''a'', base_url = ''http://a/api''\<rparr> ''a b'' = ''http://a/api?ac=detail&wd=a b''"
    using one by simp
  have neq: "request_url \<lparr>src_name = ''a'', base_url = ''http://a/api''\<rparr> ''a b''
        \<noteq> spec_request_url \<lparr>src_name = ''a'', base_url = ''http://a/api''\<rparr> ''a b''"
    using one r by blast
  have eq: "request_url \<lparr>src_name = ''a'', base_url = ''http://a/api''\<rparr> ''ab''
        = spec_request_url \<lparr>src_name = ''a'', base_url = ''http://a/api''\<rparr> ''ab''"
    using two u by blast
  show ?thesis using url neq eq r u by blast
qed

text \<open>
  C4, as the code has it. Line 98 returns whatever the parser returns. For a response of
  the expected shape whose only entry has no episode, the fetch returns the source result
  with no titles; it does not return \<^verbatim>\<open>None\<close>.
\<close>

theorem fetch_empty_result_counterexample:
  "fetch_and_process
     (\<lambda>url. Response 200 (Some (JObj [(''code'', JInt 1), (''list'', JArr [JObj []])])))
     \<lparr>src_name = ''a'', base_url = ''http://a/api''\<rparr> ''k''
   = Some \<lparr>source_name = ''a'', result = []\<rparr>"
  by (simp add: fetch_and_process_unfold is_success_def dict_get_def parse_cms_data_def
        parse_item.simps py_split_Cons Let_def)

text \<open>
  C4, amended: for a response of the expected shape (a success status, a JSON object whose
  \<^verbatim>\<open>code\<close> equals 1 and whose \<^verbatim>\<open>list\<close> is a non-empty list) that the parser turns into a
  result with no titles, the fetch returns that empty result; it is the generator that
  withholds it (line 117): the search over this source yields no event.
\<close>

theorem fetch_returns_empty_result:
  "client (request_url source keyword) = Response status (Some (JObj data))
   \<and> is_success status
   \<and> py_eq_1 (dict_get data ''code'' JNull)
   \<and> dict_get data ''list'' JNull = JArr l \<and> l \<noteq> []
   \<and> parse_cms_data (src_name source) (JArr l) = Inr r \<and> result r = []
   \<longrightarrow> fetch_and_process client source keyword = Some r
       \<and> search_event_generator (\<lambda>i. client) [0] keyword [source] = []"
proof
  assume a: "client (request_url source keyword) = Response status (Some (JObj data))
   \<and> is_success status
   \<and> py_eq_1 (dict_get data ''code'' JNull)
   \<and> dict_get data ''list'' JNull = JArr l \<and> l \<noteq> []
   \<and> parse_cms_data (src_name source) (JArr l) = Inr r \<and> result r = []"
  then have f: "fetch_and_process client source keyword = Some r"
    by (simp add: fetch_and_process_expected)
  with a show "fetch_and_process client source keyword = Some r
       \<and> search_event_generator (\<lambda>i. client) [0] keyword [source] = []"
    by (simp add: search_event_generator_def)
qed

theorem fetch_returns_empty_result_witness:
  "(\<lambda>url. Response 200 (Some (JObj [(''code'', JInt 1), (''list'', JArr [JObj []])])))
      (request_url \<lparr>src_name = ''a'', base_url = ''http://a/api''\<rparr> ''k'')
     = Response 200 (Some (JObj [(''code'', JInt 1), (''list'', JArr [JObj []])]))
   \<and> is_success 200
   \<and> py_eq_1 (dict_get [(''code'', JInt 1), (''list'', JArr [JObj []])] ''code'' JNull)
   \<and> dict_get [(''code'', JInt 1), (''list'', JArr [JObj []])] ''list'' JNull = JArr [JObj []]
   \<and> parse_cms_data ''a'' (JArr [JObj []]) = Inr \<lparr>source_name = ''a'', result = []\<rparr>
   \<and> fetch_and_process
        (\<lambda>url. Response 200 (Some (JObj [(''code'', JInt 1), (''list'', JArr [JObj []])])))
        \<lparr>src_name = ''a'', base_url = ''http://a/api''\<rparr> ''k''
       = Some \<lparr>source_name = ''a'', result = []\<rparr>
   \<and> search_event_generator
        (\<lambda>i url. Response 200 (Some (JObj [(''code'', JInt 1), (''list'', JArr [JObj []])])))
        [0] ''k'' [\<lparr>src_name = ''a'', base_url = ''http://a/api''\<rparr>]
       = []"
proof -
  have s: "is_success 200" by (simp add: is_success_def)
  have c: "py_eq_1 (dict_get [(''code'', JInt 1), (''list'', JArr [JObj []])] ''code'' JNull)"
    by (simp add: dict_get_def)
  have l: "dict_get [(''code'', JInt 1), (''list'', JArr [JObj []])] ''list'' JNull = JArr [JObj []]"
    by (simp add: dict_get_def)
  have p: "parse_cms_data ''a'' (JArr [JObj []]) = Inr \<lparr>source_name = ''a'', result = []\<rparr>"
    by (simp add: parse_cms_data_def parse_item.simps dict_get_def py_split_Cons Let_def)
  from fetch_returns_empty_result
         [of "\<lambda>url. Response 200 (Some (JObj [(''code'', JInt 1), (''list'', JArr [JObj []])]))"
             "\<lparr>src_name = ''a'', base_url = ''http://a/api''\<rparr>" "''k''" 200
             "[(''code'', JInt 1), (''list'', JArr [JObj []])]" "[JObj []]"
             "\<lparr>source_name = ''a'', result = []\<rparr>"]
  show ?thesis using s c l p by simp
qed

text \<open>
  C7, as the code has it. Line 97 tests the truth value of \<^verbatim>\<open>list\<close>, not that it is a
  list. For a body with \<^verbatim>\<open>code\<close> 1 whose \<^verbatim>\<open>list\<close> is the string \<^verbatim>\<open>ab\<close>, line 98 hands that
  string to the parser; the parser raises on its first character and the fetch returns
  \<^verbatim>\<open>None\<close>. So a body without a non-empty list does reach the parser.
\<close>

theorem parser_called_on_string_counterexample:
  "parser_call
     (\<lambda>url. Response 200 (Some (JObj [(''code'', JInt 1), (''list'', JStr ''ab'')])))
     \<lparr>src_name = ''a'', base_url = ''http://a/api''\<rparr> ''k''
     = Some (JStr ''ab'')
   \<and> parse_cms_data ''a'' (JStr ''ab'') = Inl AttributeError
   \<and> fetch_and_process
     (\<lambda>url. Response 200 (Some (JObj [(''code'', JInt 1), (''list'', JStr ''ab'')])))
     \<lparr>src_name = ''a'', base_url = ''http://a/api''\<rparr> ''k''
     = None"
  by (simp add: parser_call_def fetch_and_process_unfold request_url_def is_success_def
        dict_get_def parse_cms_data_def)

text \<open>
  C7, amended. The fetch is a total function into an optional result: every exception
  raised between lines 87 and 103 is one of the branches below and ends in \<^verbatim>\<open>None\<close>. It
  returns \<^verbatim>\<open>None\<close> when the request raises, when the status is not a success status, when
  the body is not JSON, when the JSON is not an object, when \<^verbatim>\<open>code\<close> is absent or does not
  equal 1 (equality as Python's \<^verbatim>\<open>==\<close> decides it), and when \<^verbatim>\<open>list\<close> is absent or is not a
  non-empty list. It returns a result exactly when the response has a success status and
  a JSON object with \<^verbatim>\<open>code\<close> equal to 1 and a non-empty list that the parser accepts, and
  the result is then the parser's for that list. The parser is called exactly when the
  response has a success status and a JSON object whose \<^verbatim>\<open>code\<close> equals 1 and whose \<^verbatim>\<open>list\<close>
  is true as a condition, and its argument is that \<^verbatim>\<open>list\<close>; the outcome of the fetch is
  the parser's outcome on it, an error counting as \<^verbatim>\<open>None\<close>; and when the argument is not a
  list the parser raises, so the fetch returns \<^verbatim>\<open>None\<close>.
\<close>

theorem fetch_failures_give_no_result:
  "(client (request_url source keyword) = Raised \<longrightarrow>
      fetch_and_process client source keyword = None)
   \<and> (client (request_url source keyword) = Response status body \<and> \<not> is_success status \<longrightarrow>
      fetch_and_process client source keyword = None)
   \<and> (client (request_url source keyword) = Response status None \<longrightarrow>
      fetch_and_process client source keyword = None)
   \<and> (client (request_url source keyword) = Response status (Some v) \<and> (\<forall>data. v \<noteq> JObj data) \<longrightarrow>
      fetch_and_process client source keyword = None)
   \<and> (client (request_url source keyword) = Response status (Some (JObj data))
        \<and> \<not> py_eq_1 (dict_get data ''code'' JNull) \<longrightarrow>
      fetch_and_process client source keyword = None)
   \<and> (client (request_url source keyword) = Response status (Some (JObj data))
        \<and> \<not> (\<exists>l. dict_get data ''list'' JNull = JArr l \<and> l \<noteq> []) \<longrightarrow>
      fetch_and_process client source keyword = None)
   \<and> (fetch_and_process client source keyword = Some r) =
       (\<exists>status data l.
          client (request_url source keyword) = Response status (Some (JObj data))
          \<and> is_success status
          \<and> py_eq_1 (dict_get data ''code'' JNull)
          \<and> dict_get data ''list'' JNull = JArr l \<and> l \<noteq> []
          \<and> parse_cms_data (src_name source) (JArr l) = Inr r)
   \<and> (parser_call client source keyword = Some arg) =
       (\<exists>status data.
          client (request_url source keyword) = Response status (Some (JObj data))
          \<and> is_success status
          \<and> py_eq_1 (dict_get data ''code'' JNull)
          \<and> truthy (dict_get data ''list'' JNull)
          \<and> arg = dict_get data ''list'' JNull)
   \<and> fetch_and_process client source keyword =
       (case parser_call client source keyword of
          None \<Rightarrow> None
        | Some arg \<Rightarrow>
            (case parse_cms_data (src_name source) arg of Inl e \<Rightarrow> None | Inr r \<Rightarrow> Some r))
   \<and> (parser_call client source keyword = Some arg \<and> (\<forall>l. arg \<noteq> JArr l) \<longrightarrow>
        (\<exists>e. parse_cms_data (src_name source) arg = Inl e)
        \<and> fetch_and_process client source keyword = None)"
proof -
  note old = fetch_failure_outcomes [of client source keyword status body v data r]
  have call: "(parser_call client source keyword = Some arg) =
       (\<exists>status data.
          client (request_url source keyword) = Response status (Some (JObj data))
          \<and> is_success status
          \<and> py_eq_1 (dict_get data ''code'' JNull)
          \<and> truthy (dict_get data ''list'' JNull)
          \<and> arg = dict_get data ''list'' JNull)"
    by (rule parser_call_Some_iff)
  have via: "fetch_and_process client source keyword =
       (case parser_call client source keyword of
          None \<Rightarrow> None
        | Some arg \<Rightarrow>
            (case parse_cms_data (src_name source) arg of Inl e \<Rightarrow> None | Inr r \<Rightarrow> Some r))"
    by (rule fetch_and_process_via_parser)
  have raise: "(\<exists>e. parse_cms_data (src_name source) arg = Inl e)
        \<and> fetch_and_process client source keyword = None"
    if "parser_call client source keyword = Some arg \<and> (\<forall>l. arg \<noteq> JArr l)"
  proof -
    from that have pc: "parser_call client source keyword = Some arg"
      and nl: "\<forall>l. arg \<noteq> JArr l" by simp_all
    from pc have "truthy arg"
      by (auto simp: parser_call_Some_iff)
    from parse_cms_data_not_list [OF this nl] obtain e where
      e: "parse_cms_data (src_name source) arg = Inl e" by blast
    with pc have "fetch_and_process client source keyword = None"
      by (simp add: fetch_and_process_via_parser)
    with e show ?thesis by blast
  qed
  show ?thesis
    apply (intro conjI)
    using old apply blast
    using old apply blast
    using old apply blast
    using old apply blast
    using old apply blast
    using old apply blast
    using old apply blast
    apply (rule call)
    apply (rule via)
    using raise apply blast
    done
qed

theorem fetch_failures_give_no_result_witness:
  "fetch_and_process (\<lambda>url. Raised) ex_source ''k'' = None
   \<and> \<not> is_success 404
   \<and> fetch_and_process (\<lambda>url. Response 404 (Some ex_body)) ex_source ''k'' = None
   \<and> fetch_and_process (\<lambda>url. Response 200 None) ex_source ''k'' = None
   \<and> fetch_and_process (\<lambda>url. Response 200 (Some (JArr [ex_body]))) ex_source ''k'' = None
   \<and> \<not> py_eq_1 (dict_get [(''code'', JInt 0), (''list'', JArr [JObj []])] ''code'' JNull)
   \<and> fetch_and_process
         (\<lambda>url. Response 200 (Some (JObj [(''code'', JInt 0), (''list'', JArr [JObj []])])))
         ex_source ''k'' = None
   \<and> dict_get [(''code'', JInt 1), (''list'', JArr [])] ''list'' JNull = JArr []
   \<and> fetch_and_process
         (\<lambda>url. Response 200 (Some (JObj [(''code'', JInt 1), (''list'', JArr [])])))
         ex_source ''k'' = None
   \<and> is_success 200
   \<and> fetch_and_process (\<lambda>url. Response 200 (Some ex_body)) ex_source ''k''
       = Some \<lparr>source_name = ''a'',
                result = [title_of [(''vod_play_url'', JStr ''A$u'')]
                            [\<lparr>video_name = ''A'', video_url = ''u''\<rparr>]]\<rparr>
   \<and> parser_call
         (\<lambda>url. Response 200 (Some (JObj [(''code'', JInt 1), (''list'', JStr ''ab'')])))
         ex_source ''k'' = Some (JStr ''ab'')
   \<and> fetch_and_process
         (\<lambda>url. Response 200 (Some (JObj [(''code'', JInt 1), (''list'', JStr ''ab'')])))
         ex_source ''k'' = None
   \<and> parser_call (\<lambda>url. Response 200 (Some ex_body)) ex_source ''k''
       = Some (JArr [JObj [(''vod_play_url'', JStr ''A$u'')]])"
proof -
  let ?r = "\<lparr>source_name = ''a'',
             result = [title_of [(''vod_play_url'', JStr ''A$u'')]
                         [\<lparr>video_name = ''A'', video_url = ''u''\<rparr>]]\<rparr>"
  have 1: "fetch_and_process (\<lambda>url. Raised) ex_source ''k'' = None"
    using fetch_failures_give_no_result [of "\<lambda>url. Raised" ex_source "''k''"] by simp
  have s4: "\<not> is_success 404" and s2: "is_success 200"
    by (simp_all add: is_success_def)
  have 2: "fetch_and_process (\<lambda>url. Response 404 (Some ex_body)) ex_source ''k'' = None"
    using fetch_failures_give_no_result
            [of "\<lambda>url. Response 404 (Some ex_body)" ex_source "''k''" 404 "Some ex_body"] s4
    by simp
  have 3: "fetch_and_process (\<lambda>url. Response 200 None) ex_source ''k'' = None"
    using fetch_failures_give_no_result [of "\<lambda>url. Response 200 None" ex_source "''k''" 200]
    by simp
  have 4: "fetch_and_process (\<lambda>url. Response 200 (Some (JArr [ex_body]))) ex_source ''k'' = None"
    using fetch_failures_give_no_result
            [of "\<lambda>url. Response 200 (Some (JArr [ex_body]))" ex_source "''k''" 200 _ "JArr [ex_body]"]
    by simp
  have c0: "\<not> py_eq_1 (dict_get [(''code'', JInt 0), (''list'', JArr [JObj []])] ''code'' JNull)"
    by (simp add: dict_get_def)
  have 5: "fetch_and_process
         (\<lambda>url. Response 200 (Some (JObj [(''code'', JInt 0), (''list'', JArr [JObj []])])))
         ex_source ''k'' = None"
    using fetch_failures_give_no_result
            [of "\<lambda>url. Response 200 (Some (JObj [(''code'', JInt 0), (''list'', JArr [JObj []])]))"
                ex_source "''k''" 200 _ _ "[(''code'', JInt 0), (''list'', JArr [JObj []])]"] c0
    by simp
  have l0: "dict_get [(''code'', JInt 1), (''list'', JArr [])] ''list'' JNull = JArr []"
    by (simp add: dict_get_def)
  have 6: "fetch_and_process
         (\<lambda>url. Response 200 (Some (JObj [(''code'', JInt 1), (''list'', JArr [])])))
         ex_source ''k'' = None"
    using fetch_failures_give_no_result
            [of "\<lambda>url. Response 200 (Some (JObj [(''code'', JInt 1), (''list'', JArr [])]))"
                ex_source "''k''" 200 _ _ "[(''code'', JInt 1), (''list'', JArr [])]"] l0
    by simp
  have p: "parse_cms_data (src_name ex_source) (JArr [JObj [(''vod_play_url'', JStr ''A$u'')]]) = Inr ?r"
    by (simp add: ex_source_def parse_cms_data_def parse_item_dict title_of_def episodes_of_def
          dict_get_def py_split_Cons Let_def)
  have "\<exists>status data l.
          (\<lambda>url. Response 200 (Some ex_body)) (request_url ex_source ''k'')
             = Response status (Some (JObj data))
          \<and> is_success status
          \<and> py_eq_1 (dict_get data ''code'' JNull)
          \<and> dict_get data ''list'' JNull = JArr l \<and> l \<noteq> []
          \<and> parse_cms_data (src_name ex_source) (JArr l) = Inr ?r"
    using s2 p by (simp add: ex_body_def dict_get_def)
  then have 7: "fetch_and_process (\<lambda>url. Response 200 (Some ex_body)) ex_source ''k'' = Some ?r"
    using fetch_failures_give_no_result
            [of "\<lambda>url. Response 200 (Some ex_body)" ex_source "''k''" _ _ _ _ ?r]
    by blast
  let ?str = "\<lambda>url::string. Response 200 (Some (JObj [(''code'', JInt 1), (''list'', JStr ''ab'')]))"
  have "\<exists>status data.
          ?str (request_url ex_source ''k'') = Response status (Some (JObj data))
          \<and> is_success status
          \<and> py_eq_1 (dict_get data ''code'' JNull)
          \<and> truthy (dict_get data ''list'' JNull)
          \<and> JStr ''ab'' = dict_get data ''list'' JNull"
    using s2 by (simp add: dict_get_def)
  then have 8: "parser_call ?str ex_source ''k'' = Some (JStr ''ab'')"
    using fetch_failures_give_no_result
            [of ?str ex_source "''k''" _ _ _ _ _ "JStr ''ab''"]
    by blast
  have nl: "\<forall>l. JStr ''ab'' \<noteq> JArr l"
    by simp
  have 9: "fetch_and_process ?str ex_source ''k'' = None"
    using fetch_failures_give_no_result
            [of ?str ex_source "''k''" _ _ _ _ _ "JStr ''ab''"] 8 nl
    by blast
  have "\<exists>status data.
          (\<lambda>url. Response 200 (Some ex_body)) (request_url ex_source ''k'')
             = Response status (Some (JObj data))
          \<and> is_success status
          \<and> py_eq_1 (dict_get data ''code'' JNull)
          \<and> truthy (dict_get data ''list'' JNull)
          \<and> JArr [JObj [(''vod_play_url'', JStr ''A$u'')]] = dict_get data ''list'' JNull"
    using s2 by (simp add: ex_body_def dict_get_def)
  then have 10: "parser_call (\<lambda>url. Response 200 (Some ex_body)) ex_source ''k''
       = Some (JArr [JObj [(''vod_play_url'', JStr ''A$u'')]])"
    using fetch_failures_give_no_result
            [of "\<lambda>url. Response 200 (Some ex_body)" ex_source "''k''" _ _ _ _ _
                "JArr [JObj [(''vod_play_url'', JStr ''A$u'')]]"]
    by blast
  from 1 s4 2 3 4 c0 5 l0 6 s2 7 8 9 10 show ?thesis by blast
qed

text \<open>
  C8. Whatever the order in which the tasks finish (each finishes once), the events
  yielded are, as a multiset, the results of the tasks that returned a result with titles,
  one event for each; so there are as many events as such tasks. When every source either
  fails (its fetch returns \<^verbatim>\<open>None\<close>) or succeeds with titles, and \<open>K\<close> of the \<open>N\<close> fail, there are
  \<open>N - K\<close> events; when all fail there is none. The generator is a total function whose
  value is a finite list: after the last task the stream ends.
\<close>

theorem search_emits_one_per_success:
  "completion_order (length sources) order \<longrightarrow>
     mset (search_event_generator net order keyword sources)
       = mset (map (\<lambda>t. Data (the t)) (filter emits (create_tasks net keyword 0 sources)))
     \<and> length (search_event_generator net order keyword sources)
       = length (filter emits (create_tasks net keyword 0 sources))
     \<and> ((\<forall>t\<in>set (create_tasks net keyword 0 sources). t = None \<or> emits t) \<longrightarrow>
          length (search_event_generator net order keyword sources)
            = length sources - length (filter (\<lambda>t. t = None) (create_tasks net keyword 0 sources)))
     \<and> ((\<forall>t\<in>set (create_tasks net keyword 0 sources). t = None) \<longrightarrow>
          search_event_generator net order keyword sources = [])"
proof
  let ?tasks = "create_tasks net keyword 0 sources"
  let ?out = "search_event_generator net order keyword sources"
  assume "completion_order (length sources) order"
  then have co: "completion_order (length ?tasks) order" by simp
  have m: "mset ?out = mset (map (\<lambda>t. Data (the t)) (filter emits ?tasks))"
    unfolding search_event_generator_def by (rule mset_as_completed_loop [OF co])
  from m have "length ?out = length (map (\<lambda>t. Data (the t)) (filter emits ?tasks))"
    by (rule mset_eq_length)
  then have len: "length ?out = length (filter emits ?tasks)"
    by simp
  have part: "length ?out = length sources - length (filter (\<lambda>t. t = None) ?tasks)"
    if "\<forall>t\<in>set ?tasks. t = None \<or> emits t"
  proof -
    have "emits t \<Longrightarrow> t \<noteq> None" for t
      by (cases t) simp_all
    with that have "filter emits ?tasks = filter (\<lambda>t. \<not> t = None) ?tasks"
      by (intro filter_cong) blast+
    moreover have "length (filter (\<lambda>t. \<not> t = None) ?tasks)
                     = length ?tasks - length (filter (\<lambda>t. t = None) ?tasks)"
      using sum_length_filter_compl [of "\<lambda>t. t = None" ?tasks] by simp
    ultimately show ?thesis using len by simp
  qed
  have none: "?out = []" if "\<forall>t\<in>set ?tasks. t = None"
  proof -
    from that have "filter emits ?tasks = []"
      by (auto simp: filter_empty_conv)
    with len show ?thesis by simp
  qed
  from m len part none show
    "mset ?out = mset (map (\<lambda>t. Data (the t)) (filter emits ?tasks))
     \<and> length ?out = length (filter emits ?tasks)
     \<and> ((\<forall>t\<in>set ?tasks. t = None \<or> emits t) \<longrightarrow>
          length ?out = length sources - length (filter (\<lambda>t. t = None) ?tasks))
     \<and> ((\<forall>t\<in>set ?tasks. t = None) \<longrightarrow> ?out = [])"
    by blast
qed

theorem search_emits_one_per_success_witness:
  "completion_order (length ex_sources3) [2, 1, 0]
   \<and> create_tasks ex_net3 ''k'' 0 ex_sources3 = [Some ex_result_a, None, Some ex_result_c]
   \<and> list_all (\<lambda>t. t = None \<or> emits t) (create_tasks ex_net3 ''k'' 0 ex_sources3)
   \<and> length (filter (\<lambda>t. t = None) (create_tasks ex_net3 ''k'' 0 ex_sources3)) = 1
   \<and> length (search_event_generator ex_net3 [2, 1, 0] ''k'' ex_sources3) = 3 - 1
   \<and> mset (search_event_generator ex_net3 [2, 1, 0] ''k'' ex_sources3)
       = {#Data ex_result_a, Data ex_result_c#}
   \<and> completion_order (length ex_sources3) [0, 1, 2]
   \<and> list_all (\<lambda>t. t = None) (create_tasks (\<lambda>i url. Raised) ''k'' 0 ex_sources3)
   \<and> search_event_generator (\<lambda>i url. Raised) [0, 1, 2] ''k'' ex_sources3 = []"
proof -
  note run = search_emits_one_per_success [of ex_sources3 "[2, 1, 0]" ex_net3 "''k''"]
  note fail = search_emits_one_per_success [of ex_sources3 "[0, 1, 2]" "\<lambda>i url. Raised" "''k''"]
  have ne: "emits (Some ex_result_a)" "emits (Some ex_result_c)"
    by (simp_all add: ex_result_a_def ex_result_c_def)
  have all: "list_all (\<lambda>t. t = None \<or> emits t) (create_tasks ex_net3 ''k'' 0 ex_sources3)"
    using ne by (simp add: ex_tasks3)
  have k: "length (filter (\<lambda>t. t = None) (create_tasks ex_net3 ''k'' 0 ex_sources3)) = 1"
    by (simp add: ex_tasks3)
  have n: "length ex_sources3 = 3"
    by (simp add: ex_sources3_def)
  have len: "length (search_event_generator ex_net3 [2, 1, 0] ''k'' ex_sources3) = 3 - 1"
    using run ex_order3 all k n by (simp add: list_all_iff)
  have ms: "mset (search_event_generator ex_net3 [2, 1, 0] ''k'' ex_sources3)
       = {#Data ex_result_a, Data ex_result_c#}"
    using run ex_order3 ne by (simp add: ex_tasks3)
  have o2: "completion_order (length ex_sources3) [0, 1, 2]"
    by (simp add: ex_sources3_def completion_order_def upt_rec)
  have tf: "create_tasks (\<lambda>i url. Raised) ''k'' 0 ex_sources3 = [None, None, None]"
    by (simp add: ex_sources3_def fetch_and_process_unfold)
  have af: "list_all (\<lambda>t. t = None) (create_tasks (\<lambda>i url. Raised) ''k'' 0 ex_sources3)"
    by (simp add: tf)
  have e: "search_event_generator (\<lambda>i url. Raised) [0, 1, 2] ''k'' ex_sources3 = []"
    using fail o2 af by (simp add: list_all_iff)
  from ex_order3 ex_tasks3 all k len ms o2 af e show ?thesis by blast
qed

text \<open>
  C9. The events come in the order in which the tasks finish: the stream is the list of
  the results with titles, read off along the completion order. If the task finishing in
  position \<open>p\<close> and the task finishing in a later position \<open>q\<close> both return a result with
  titles, the event of the first sits at an earlier index of the stream than the event of
  the second, wherever the two sources stand in the configured list. In the example the
  third source finishes first and its event precedes that of the first source.
\<close>

theorem emitted_in_completion_order:
  "completion_order (length sources) order \<longrightarrow>
     search_event_generator net order keyword sources
       = map (\<lambda>i. Data (the (create_tasks net keyword 0 sources ! i)))
           (filter (\<lambda>i. emits (create_tasks net keyword 0 sources ! i)) order)
     \<and> (p < q \<and> q < length order
          \<and> emits (create_tasks net keyword 0 sources ! (order ! p))
          \<and> emits (create_tasks net keyword 0 sources ! (order ! q)) \<longrightarrow>
        emission_index (create_tasks net keyword 0 sources) order p
          < emission_index (create_tasks net keyword 0 sources) order q
        \<and> emission_index (create_tasks net keyword 0 sources) order q
          < length (search_event_generator net order keyword sources)
        \<and> search_event_generator net order keyword sources
            ! emission_index (create_tasks net keyword 0 sources) order p
          = Data (the (create_tasks net keyword 0 sources ! (order ! p)))
        \<and> search_event_generator net order keyword sources
            ! emission_index (create_tasks net keyword 0 sources) order q
          = Data (the (create_tasks net keyword 0 sources ! (order ! q))))"
proof
  let ?tasks = "create_tasks net keyword 0 sources"
  let ?out = "search_event_generator net order keyword sources"
  let ?P = "\<lambda>i. emits (?tasks ! i)"
  let ?f = "\<lambda>i. Data (the (?tasks ! i))"
  assume "completion_order (length sources) order"
  then have "completion_order (length ?tasks) order" by simp
  then have out: "?out = map ?f (filter ?P order)"
    unfolding search_event_generator_def by (rule as_completed_loop_complete)
  have pos: "emission_index ?tasks order p < emission_index ?tasks order q
        \<and> emission_index ?tasks order q < length ?out
        \<and> ?out ! emission_index ?tasks order p = ?f (order ! p)
        \<and> ?out ! emission_index ?tasks order q = ?f (order ! q)"
    if "p < q \<and> q < length order \<and> ?P (order ! p) \<and> ?P (order ! q)"
  proof -
    from that have pq: "p < q" and q: "q < length order" and p: "p < length order"
      and ep: "?P (order ! p)" and eq: "?P (order ! q)"
      by simp_all
    from pq q ep have lt: "emission_index ?tasks order p < emission_index ?tasks order q"
      unfolding emission_index_def by (intro filter_take_mono) simp_all
    have bq: "emission_index ?tasks order q < length (filter ?P order)"
      unfolding emission_index_def using q eq by (rule filter_nth_position(1))
    have nq: "filter ?P order ! emission_index ?tasks order q = order ! q"
      unfolding emission_index_def using q eq by (rule filter_nth_position(2))
    have np: "filter ?P order ! emission_index ?tasks order p = order ! p"
      unfolding emission_index_def using p ep by (rule filter_nth_position(2))
    from lt bq have bp: "emission_index ?tasks order p < length (filter ?P order)"
      by simp
    from bq nq have "?out ! emission_index ?tasks order q = ?f (order ! q)"
      by (simp add: out)
    moreover from bp np have "?out ! emission_index ?tasks order p = ?f (order ! p)"
      by (simp add: out)
    moreover from bq have "emission_index ?tasks order q < length ?out"
      by (simp add: out)
    ultimately show ?thesis using lt by blast
  qed
  from out pos show "?out = map ?f (filter ?P order)
     \<and> (p < q \<and> q < length order \<and> ?P (order ! p) \<and> ?P (order ! q) \<longrightarrow>
        emission_index ?tasks order p < emission_index ?tasks order q
        \<and> emission_index ?tasks order q < length ?out
        \<and> ?out ! emission_index ?tasks order p = ?f (order ! p)
        \<and> ?out ! emission_index ?tasks order q = ?f (order ! q))"
    by blast
qed

theorem emitted_in_completion_order_witness:
  "completion_order (length ex_sources3) [2, 1, 0]
   \<and> (0::nat) < 2 \<and> 2 < length [2, 1, 0 :: nat]
   \<and> emits (create_tasks ex_net3 ''k'' 0 ex_sources3 ! ([2, 1, 0] ! 0))
   \<and> emits (create_tasks ex_net3 ''k'' 0 ex_sources3 ! ([2, 1, 0] ! 2))
   \<and> emission_index (create_tasks ex_net3 ''k'' 0 ex_sources3) [2, 1, 0] 0 = 0
   \<and> emission_index (create_tasks ex_net3 ''k'' 0 ex_sources3) [2, 1, 0] 2 = 1
   \<and> search_event_generator ex_net3 [2, 1, 0] ''k'' ex_sources3 ! 0 = Data ex_result_c
   \<and> search_event_generator ex_net3 [2, 1, 0] ''k'' ex_sources3 ! 1 = Data ex_result_a
   \<and> search_event_generator ex_net3 [2, 1, 0] ''k'' ex_sources3 = [Data ex_result_c, Data ex_result_a]
   \<and> search_event_generator ex_net3 [0, 1, 2] ''k'' ex_sources3 = [Data ex_result_a, Data ex_result_c]"
proof -
  note run = emitted_in_completion_order [of ex_sources3 "[2, 1, 0]" ex_net3 "''k''" 0 2]
  have ne: "emits (Some ex_result_a)" "emits (Some ex_result_c)"
    by (simp_all add: ex_result_a_def ex_result_c_def)
  have e0: "emits (create_tasks ex_net3 ''k'' 0 ex_sources3 ! ([2, 1, 0] ! 0))"
    and e2: "emits (create_tasks ex_net3 ''k'' 0 ex_sources3 ! ([2, 1, 0] ! 2))"
    using ne by (simp_all add: ex_tasks3)
  have i0: "emission_index (create_tasks ex_net3 ''k'' 0 ex_sources3) [2, 1, 0] 0 = 0"
    by (simp add: emission_index_def)
  have i2: "emission_index (create_tasks ex_net3 ''k'' 0 ex_sources3) [2, 1, 0] 2 = 1"
    using ne by (simp add: emission_index_def ex_tasks3 numeral_2_eq_2)
  have o0: "search_event_generator ex_net3 [2, 1, 0] ''k'' ex_sources3 ! 0 = Data ex_result_c"
    and o1: "search_event_generator ex_net3 [2, 1, 0] ''k'' ex_sources3 ! 1 = Data ex_result_a"
    using run ex_order3 e0 e2 i0 i2 by (simp_all add: ex_tasks3)
  have all: "search_event_generator ex_net3 [2, 1, 0] ''k'' ex_sources3
               = [Data ex_result_c, Data ex_result_a]"
    using run ex_order3 ne by (simp add: ex_tasks3)
  have o2: "completion_order (length ex_sources3) [0, 1, 2]"
    by (simp add: ex_sources3_def completion_order_def upt_rec)
  have inorder: "search_event_generator ex_net3 [0, 1, 2] ''k'' ex_sources3
               = [Data ex_result_a, Data ex_result_c]"
    using emitted_in_completion_order [of ex_sources3 "[0, 1, 2]" ex_net3 "''k''" 0 2] o2 ne
    by (simp add: ex_tasks3)
  from ex_order3 e0 e2 i0 i2 o0 o1 all inorder show ?thesis by simp
qed

text \<open>
  C10. When \<^verbatim>\<open>model_dump_json\<close> raises, when opening the file raises, or when the write
  raises, the handler answers with the HTTP error 500 whose detail carries the message, and
  the global \<^verbatim>\<open>site_config\<close> is what it was. The handler answers with success exactly when
  the text was produced and written, and the global changes only in that case.
\<close>

theorem update_config_failure_keeps_config:
  "(model_dump_json env config_data = Inl e \<longrightarrow>
      update_config env config_data st = (HTTPException 500 (''Error updating config: '' @ e), st))
   \<and> (model_dump_json env config_data = Inr text
        \<and> write_file env ''config.json'' text = Open_raises e \<longrightarrow>
      update_config env config_data st = (HTTPException 500 (''Error updating config: '' @ e), st))
   \<and> (model_dump_json env config_data = Inr text
        \<and> write_file env ''config.json'' text = Write_raises e left \<longrightarrow>
      fst (update_config env config_data st) = HTTPException 500 (''Error updating config: '' @ e)
      \<and> site_config (snd (update_config env config_data st)) = site_config st)
   \<and> ((\<exists>msg cfg. fst (update_config env config_data st) = Success msg cfg) =
       (\<exists>text. model_dump_json env config_data = Inr text
                \<and> write_file env ''config.json'' text = Written))
   \<and> (site_config (snd (update_config env config_data st)) \<noteq> site_config st \<longrightarrow>
       (\<exists>text. model_dump_json env config_data = Inr text
                \<and> write_file env ''config.json'' text = Written))"
proof (intro conjI impI)
  assume "model_dump_json env config_data = Inl e"
  then show "update_config env config_data st
               = (HTTPException 500 (''Error updating config: '' @ e), st)"
    by (simp add: update_config_def)
next
  assume "model_dump_json env config_data = Inr text
            \<and> write_file env ''config.json'' text = Open_raises e"
  then show "update_config env config_data st
               = (HTTPException 500 (''Error updating config: '' @ e), st)"
    by (simp add: update_config_def)
next
  assume a: "model_dump_json env config_data = Inr text
            \<and> write_file env ''config.json'' text = Write_raises e left"
  then show "fst (update_config env config_data st)
               = HTTPException 500 (''Error updating config: '' @ e)"
    by (simp add: update_config_def)
  from a show "site_config (snd (update_config env config_data st)) = site_config st"
    by (simp add: update_config_def)
next
  show "(\<exists>msg cfg. fst (update_config env config_data st) = Success msg cfg) =
       (\<exists>text. model_dump_json env config_data = Inr text
                \<and> write_file env ''config.json'' text = Written)"
    by (auto simp: update_config_def Let_def split: sum.splits fs_outcome.splits)
next
  assume "site_config (snd (update_config env config_data st)) \<noteq> site_config st"
  then show "\<exists>text. model_dump_json env config_data = Inr text
                \<and> write_file env ''config.json'' text = Written"
    by (auto simp: update_config_def Let_def split: sum.splits fs_outcome.splits)
qed

theorem update_config_failure_keeps_config_witness:
  "model_dump_json ex_env_dump_fails ex_config = Inl ''cannot serialize''
   \<and> update_config ex_env_dump_fails ex_config ex_state
       = (HTTPException 500 ''Error updating config: cannot serialize'', ex_state)
   \<and> write_file ex_env_open_fails ''config.json'' ''{}'' = Open_raises ''permission denied''
   \<and> update_config ex_env_open_fails ex_config ex_state
       = (HTTPException 500 ''Error updating config: permission denied'', ex_state)
   \<and> write_file ex_env_write_fails ''config.json'' ''{}'' = Write_raises ''no space left'' ''{''
   \<and> fst (update_config ex_env_write_fails ex_config ex_state)
       = HTTPException 500 ''Error updating config: no space left''
   \<and> site_config (snd (update_config ex_env_write_fails ex_config ex_state))
       = JObj [(''timeout'', JInt 3)]
   \<and> fst (update_config ex_env_ok ex_config ex_state)
       = Success ''Configuration updated and saved successfully.'' (model_dump ex_config)
   \<and> site_config (snd (update_config ex_env_ok ex_config ex_state)) = model_dump ex_config
   \<and> site_config (snd (update_config ex_env_ok ex_config ex_state)) \<noteq> site_config ex_state"
proof -
  have d: "model_dump_json ex_env_dump_fails ex_config = Inl ''cannot serialize''"
    by (simp add: ex_env_dump_fails_def)
  have 1: "update_config ex_env_dump_fails ex_config ex_state
       = (HTTPException 500 ''Error updating config: cannot serialize'', ex_state)"
    using update_config_failure_keeps_config
            [of ex_env_dump_fails ex_config "''cannot serialize''" ex_state] d
    by simp
  have o: "model_dump_json ex_env_open_fails ex_config = Inr ''{}''"
      "write_file ex_env_open_fails ''config.json'' ''{}'' = Open_raises ''permission denied''"
    by (simp_all add: ex_env_open_fails_def)
  have 2: "update_config ex_env_open_fails ex_config ex_state
       = (HTTPException 500 ''Error updating config: permission denied'', ex_state)"
    using update_config_failure_keeps_config
            [of ex_env_open_fails ex_config "''permission denied''" ex_state "''{}''"] o
    by simp
  have w: "model_dump_json ex_env_write_fails ex_config = Inr ''{}''"
      "write_file ex_env_write_fails ''config.json'' ''{}'' = Write_raises ''no space left'' ''{''"
    by (simp_all add: ex_env_write_fails_def)
  have 3: "fst (update_config ex_env_write_fails ex_config ex_state)
       = HTTPException 500 ''Error updating config: no space left''"
     and 4: "site_config (snd (update_config ex_env_write_fails ex_config ex_state))
       = JObj [(''timeout'', JInt 3)]"
    using update_config_failure_keeps_config
            [of ex_env_write_fails ex_config "''no space left''" ex_state "''{}''" "''{''"] w
    by (simp_all add: ex_state_def)
  have 5: "fst (update_config ex_env_ok ex_config ex_state)
       = Success ''Configuration updated and saved successfully.'' (model_dump ex_config)"
    and 6: "site_config (snd (update_config ex_env_ok ex_config ex_state)) = model_dump ex_config"
    by (simp_all add: update_config_def ex_env_ok_def Let_def)
  have 7: "site_config (snd (update_config ex_env_ok ex_config ex_state)) \<noteq> site_config ex_state"
  proof -
    have "model_dump ex_config \<noteq> site_config ex_state"
      by (simp add: model_dump_def ex_state_def)
    then show ?thesis by (simp add: 6)
  qed
  from d 1 o(2) 2 w(2) 3 4 5 6 7 show ?thesis by blast
qed

end
